theory Spec2Isabelle
  imports Complex_Main "HOL-Library.Log_Nat" "HOL-Library.Code_Target_Numeral"
begin

section \<open>JavaScript numbers\<close>

text \<open>
  A JavaScript number is a double or \<open>NaN\<close>. A double is a real number that rounding to
  binary64 leaves unchanged: 53 significant bits, rounded to the nearest, ties to the even
  significand. Every arithmetic operation computes the exact result and rounds it, as the
  runtime does. The exponent is not bounded in the model: overflow to an infinity and the
  loss of precision below \<open>2 powi - 1022\<close> are outside it. The sign of zero is not kept: no
  comparison of the engine tells the two zeros apart. \<open>NaN\<close> is kept because the engine can
  produce it by itself (\<open>parseInt\<close> on a string with no leading digits) and because every
  comparison with it is false.
\<close>

text \<open>Rounding to the nearest integer, ties to the even one.\<close>

definition round_even :: "real \<Rightarrow> int" where
  "round_even r =
     (let f = \<lfloor>r\<rfloor>; t = r - of_int f
      in if t < 1 / 2 then f else if 1 / 2 < t then f + 1
         else if even f then f else f + 1)"

text \<open>The binary exponent of a real other than zero: \<open>2 powi expo x \<le> \<bar>x\<bar> < 2 powi (expo x + 1)\<close>.\<close>

definition expo :: "real \<Rightarrow> int" where
  "expo x =
     (if 1 \<le> \<bar>x\<bar> then bitlen \<lfloor>\<bar>x\<bar>\<rfloor> - 1
      else - bitlen (\<lceil>1 / \<bar>x\<bar>\<rceil> - 1))"

text \<open>The unit in the last of the 53 places of \<open>x\<close>.\<close>

definition ulp :: "real \<Rightarrow> real" where
  "ulp x = 2 powi (expo x - 52)"

text \<open>Rounding a real to the nearest double.\<close>

definition fl :: "real \<Rightarrow> real" where
  "fl x = (if x = 0 then 0 else of_int (round_even (x / ulp x)) * ulp x)"

typedef double = "{x :: real. fl x = x}"
  morphisms val Abs_double
  by (rule exI [of _ 0]) (simp add: fl_def)

text \<open>Two doubles are equal when their values are.\<close>

instantiation double :: equal
begin

definition equal_double :: "double \<Rightarrow> double \<Rightarrow> bool" where
  "equal_double a b = (val a = val b)"

instance
  by standard (simp add: equal_double_def val_inject)

end

text \<open>The double nearest to a real: a numeric literal, or the result of an operation.\<close>

definition D :: "real \<Rightarrow> double" where
  "D x = Abs_double (fl x)"

definition d_add :: "double \<Rightarrow> double \<Rightarrow> double" where
  "d_add a b = D (val a + val b)"

definition d_sub :: "double \<Rightarrow> double \<Rightarrow> double" where
  "d_sub a b = D (val a - val b)"

definition d_mul :: "double \<Rightarrow> double \<Rightarrow> double" where
  "d_mul a b = D (val a * val b)"

text \<open>The quotient by a divisor other than zero; the engine divides by 100 only.\<close>

definition d_div :: "double \<Rightarrow> double \<Rightarrow> double" where
  "d_div a b = D (val a / val b)"

definition d_floor :: "double \<Rightarrow> double" where
  "d_floor a = D (of_int \<lfloor>val a\<rfloor>)"

definition d_abs :: "double \<Rightarrow> double" where
  "d_abs a = D \<bar>val a\<bar>"

datatype jsnum = Num double | NaN

fun js_add :: "jsnum \<Rightarrow> jsnum \<Rightarrow> jsnum" where
  "js_add (Num a) (Num b) = Num (d_add a b)"
| "js_add _ _ = NaN"

fun js_mul :: "jsnum \<Rightarrow> jsnum \<Rightarrow> jsnum" where
  "js_mul (Num a) (Num b) = Num (d_mul a b)"
| "js_mul _ _ = NaN"

fun js_floor :: "jsnum \<Rightarrow> jsnum" where
  "js_floor (Num a) = Num (d_floor a)"
| "js_floor NaN = NaN"

fun js_abs :: "jsnum \<Rightarrow> jsnum" where
  "js_abs (Num a) = Num (d_abs a)"
| "js_abs NaN = NaN"

fun js_lt :: "jsnum \<Rightarrow> jsnum \<Rightarrow> bool" where
  "js_lt (Num a) (Num b) = (val a < val b)"
| "js_lt _ _ = False"

fun js_le :: "jsnum \<Rightarrow> jsnum \<Rightarrow> bool" where
  "js_le (Num a) (Num b) = (val a \<le> val b)"
| "js_le _ _ = False"

fun js_gt :: "jsnum \<Rightarrow> jsnum \<Rightarrow> bool" where
  "js_gt (Num a) (Num b) = (val a > val b)"
| "js_gt _ _ = False"

fun js_ge :: "jsnum \<Rightarrow> jsnum \<Rightarrow> bool" where
  "js_ge (Num a) (Num b) = (val a \<ge> val b)"
| "js_ge _ _ = False"

text \<open>\<open>ToNumber\<close> of a value that may be \<open>undefined\<close>: \<open>undefined\<close> converts to \<open>NaN\<close>.\<close>

fun ToNumber :: "jsnum option \<Rightarrow> jsnum" where
  "ToNumber None = NaN"
| "ToNumber (Some n) = n"

subsection \<open>Strings and the string functions of the runtime that the engine calls\<close>

text \<open>
  A string of the runtime is a sequence of UTF-16 code units, numbers below 65536. A
  string of ASCII characters has one code unit for each character.
\<close>

type_synonym codeunit = nat

type_synonym jsstring = "codeunit list"

definition codeUnits :: "string \<Rightarrow> jsstring" where
  "codeUnits s = map of_char s"

text \<open>
  The white space and the line terminators that \<open>parseInt\<close> skips: tab, line feed,
  vertical tab, form feed, carriage return, space, no-break space, the space separators
  of Unicode, the line and paragraph separators, and the byte order mark.
\<close>

definition isWhiteSpace :: "codeunit \<Rightarrow> bool" where
  "isWhiteSpace c =
     (c \<in> set [0x0009, 0x000A, 0x000B, 0x000C, 0x000D, 0x0020, 0x00A0, 0x1680,
               0x2000, 0x2001, 0x2002, 0x2003, 0x2004, 0x2005, 0x2006, 0x2007,
               0x2008, 0x2009, 0x200A, 0x2028, 0x2029, 0x202F, 0x205F, 0x3000, 0xFEFF])"

definition isDigit :: "codeunit \<Rightarrow> bool" where
  "isDigit c = (0x30 \<le> c \<and> c \<le> 0x39)"

definition digitValue :: "codeunit \<Rightarrow> nat" where
  "digitValue c = c - 0x30"

text \<open>
  \<open>parseInt(s, 10)\<close>: leading white space is skipped, one sign is read, then the longest
  run of decimal digits; without a digit the result is \<open>NaN\<close>, otherwise the double nearest
  to the integer read (the runtime may approximate an integer of more than 20 digits
  otherwise).
\<close>

definition parseInt :: "jsstring \<Rightarrow> jsnum" where
  "parseInt s =
     (let t = dropWhile isWhiteSpace s;
          neg = (t \<noteq> [] \<and> hd t = 0x2D);
          u = (if t \<noteq> [] \<and> (hd t = 0x2D \<or> hd t = 0x2B) then tl t else t);
          ds = takeWhile isDigit u
      in if ds = [] then NaN
         else Num (D (of_int ((if neg then - 1 else 1) *
                int (foldl (\<lambda>a c. 10 * a + digitValue c) 0 ds)))))"

text \<open>\<open>s.lastIndexOf(c)\<close>: the index of the last occurrence of \<open>c\<close>, or \<open>-1\<close>.\<close>

definition lastIndexOf :: "jsstring \<Rightarrow> codeunit \<Rightarrow> int" where
  "lastIndexOf s c =
     (if c \<in> set s
      then int (length s) - 1 - int (length (takeWhile (\<lambda>x. x \<noteq> c) (rev s)))
      else - 1)"

text \<open>The code unit of the percent sign.\<close>

definition percentSign :: codeunit where
  "percentSign = 0x25"

section \<open>The host page\<close>

text \<open>
  What the engine reads from an element: its bounding rectangle (viewport coordinates,
  possibly fractional), its client box (non-negative integers) and its scroll offsets.
  The context is a document, read through its root element, or an element.
\<close>

record ClientRect =
  rect_top :: double
  rect_left :: double
  rect_right :: double
  rect_bottom :: double
  rect_width :: double
  rect_height :: double

record HTMLElement =
  boundingClientRect :: ClientRect
  clientHeight :: nat
  clientWidth :: nat
  scrollTop :: double
  scrollLeft :: double

datatype node = Document HTMLElement | Element HTMLElement

datatype target = ContextTarget | WindowTarget

record Event =
  event_target :: target
  event_type :: string

text \<open>The listeners registered with the host: the target and the event name of each.\<close>

type_synonym registry = "(target \<times> string) list"

fun isDoc :: "node \<Rightarrow> bool" where
  "isDoc (Document d) = True"
| "isDoc (Element e) = False"

fun getElement :: "node \<Rightarrow> HTMLElement" where
  "getElement (Document d) = d"
| "getElement (Element e) = e"

definition getRect :: "HTMLElement \<Rightarrow> ClientRect" where
  "getRect element = boundingClientRect element"

section \<open>Subject\<close>

text \<open>
  The wrappers hold references to nodes that the host owns and changes. In the model a
  wrapper holds the node as the host shows it at the moment of the call.
\<close>

record Subject =
  subject_element :: HTMLElement

definition Subject_top :: "Subject \<Rightarrow> double" where
  "Subject_top s = rect_top (getRect (subject_element s))"

definition Subject_left :: "Subject \<Rightarrow> double" where
  "Subject_left s = rect_left (getRect (subject_element s))"

definition Subject_right :: "Subject \<Rightarrow> double" where
  "Subject_right s = rect_right (getRect (subject_element s))"

definition Subject_bottom :: "Subject \<Rightarrow> double" where
  "Subject_bottom s = rect_bottom (getRect (subject_element s))"

text \<open>\<open>height()\<close> and \<open>width()\<close> as the engine calls them: without margins.\<close>

definition Subject_height :: "Subject \<Rightarrow> double" where
  "Subject_height s = rect_height (getRect (subject_element s))"

definition Subject_width :: "Subject \<Rightarrow> double" where
  "Subject_width s = rect_width (getRect (subject_element s))"

section \<open>Context\<close>

definition DIR_NONE :: nat where "DIR_NONE = 0"
definition DIR_UP :: nat where "DIR_UP = 1"
definition DIR_DOWN :: nat where "DIR_DOWN = 2"
definition DIR_LEFT :: nat where "DIR_LEFT = 3"
definition DIR_RIGHT :: nat where "DIR_RIGHT = 4"

record Scroll =
  scroll_top :: double
  scroll_left :: double
  topDiff :: double
  leftDiff :: double
  dirY :: nat
  dirX :: nat

record Context =
  context_element :: node
  event :: "Event option"
  scroll :: Scroll
  registeredWindowEvents :: "string list"
  boundListener :: bool

definition Context_top :: "Context \<Rightarrow> double" where
  "Context_top c =
     (if isDoc (context_element c) then D 0
      else rect_top (getRect (getElement (context_element c))))"

definition Context_left :: "Context \<Rightarrow> double" where
  "Context_left c =
     (if isDoc (context_element c) then D 0
      else rect_left (getRect (getElement (context_element c))))"

definition scrollTopDiff :: "Context \<Rightarrow> double" where
  "scrollTopDiff c = topDiff (scroll c)"

definition scrollLeftDiff :: "Context \<Rightarrow> double" where
  "scrollLeftDiff c = leftDiff (scroll c)"

definition innerHeight :: "Context \<Rightarrow> double" where
  "innerHeight c = D (real (clientHeight (getElement (context_element c))))"

definition innerWidth :: "Context \<Rightarrow> double" where
  "innerWidth c = D (real (clientWidth (getElement (context_element c))))"

text \<open>
  \<open>populateScroll\<close>: the differences and the directions are computed against the stored
  offsets, which are overwritten last.
\<close>

definition populateScroll :: "Context \<Rightarrow> Context" where
  "populateScroll that =
     (let element = getElement (context_element that);
          old = scroll that;
          scrollTop' = scrollTop element;
          scrollLeft' = scrollLeft element
      in that\<lparr>scroll :=
           \<lparr>scroll_top = scrollTop',
            scroll_left = scrollLeft',
            topDiff = d_sub scrollTop' (scroll_top old),
            leftDiff = d_sub scrollLeft' (scroll_left old),
            dirY = (if scrollTop' = scroll_top old then DIR_NONE
                    else if val scrollTop' > val (scroll_top old) then DIR_DOWN else DIR_UP),
            dirX = (if scrollLeft' = scroll_left old then DIR_NONE
                    else if val scrollLeft' > val (scroll_left old) then DIR_RIGHT
                    else DIR_LEFT)\<rparr>\<rparr>)"

text \<open>The constructor: the field initialisers, then \<open>populateScroll\<close>.\<close>

definition Context_new :: "node \<Rightarrow> Context" where
  "Context_new element =
     populateScroll
       \<lparr>context_element = element,
        event = None,
        scroll = \<lparr>scroll_top = D 0, scroll_left = D 0, topDiff = D 0, leftDiff = D 0,
                  dirY = DIR_NONE, dirX = DIR_NONE\<rparr>,
        registeredWindowEvents = [],
        boundListener = False\<rparr>"

text \<open>
  \<open>listen\<close> binds the listener and registers it for \<open>scroll\<close> on the element and for
  each window event on the element's window.
\<close>

definition listen :: "string list option \<Rightarrow> registry \<times> Context \<Rightarrow> registry \<times> Context" where
  "listen windowEvents rc =
     (let reg = fst rc; that = snd rc;
          that1 = that\<lparr>boundListener := True\<rparr>;
          reg1 = reg @ [(ContextTarget, ''scroll'')]
      in case windowEvents of
           None \<Rightarrow> (reg1, that1)
         | Some evs \<Rightarrow>
             (reg1 @ map (\<lambda>eventName. (WindowTarget, eventName)) evs,
              that1\<lparr>registeredWindowEvents := evs\<rparr>))"

definition unlisten :: "registry \<times> Context \<Rightarrow> registry \<times> Context" where
  "unlisten rc =
     (let reg = fst rc; that = snd rc;
          reg1 = remove1 (ContextTarget, ''scroll'') reg
      in (foldl (\<lambda>r eventName. remove1 (WindowTarget, eventName) r) reg1
            (registeredWindowEvents that), that))"

section \<open>Options\<close>

datatype TPercentageMode = Parent | Self

datatype TOffset =
    ONum jsnum
  | OStr jsstring
  | OFun "Subject \<Rightarrow> Context \<Rightarrow> jsnum"

record IOffset =
  offset_top :: "TOffset option"
  offset_left :: "TOffset option"
  offset_right :: "TOffset option"
  offset_bottom :: "TOffset option"

record IScrollAmount =
  amount_top :: "jsnum option"
  amount_left :: "jsnum option"

text \<open>
  An entry of the options bag that has a default: the key is absent, or present with the
  value \<open>undefined\<close>, or present with a value. The two entries without a default are read
  with \<open>||\<close>, which treats an absent key and \<open>undefined\<close> alike.
\<close>

datatype 'a entry = Absent | Undefined | Given 'a

record IOptions =
  given_context :: "HTMLElement option"
  given_windowEvents :: "string list entry"
  given_offset :: "IOffset entry"
  given_offsetPercentageMode :: "TPercentageMode entry"
  given_scrollAmount :: "IScrollAmount option"

text \<open>
  The object spread over the defaults: a key that is present overrides the default, also
  when its value is \<open>undefined\<close>.
\<close>

fun overDefault :: "'a \<Rightarrow> 'a entry \<Rightarrow> 'a entry" where
  "overDefault d Absent = Given d"
| "overDefault d Undefined = Undefined"
| "overDefault d (Given v) = Given v"

definition mergeDefaults :: "IOptions \<Rightarrow> IOptions" where
  "mergeDefaults given =
     given\<lparr>given_windowEvents :=
             overDefault [''DOMContentLoaded'', ''resize''] (given_windowEvents given),
           given_offset :=
             overDefault \<lparr>offset_top = None, offset_left = None,
                          offset_right = None, offset_bottom = None\<rparr> (given_offset given),
           given_offsetPercentageMode :=
             overDefault Parent (given_offsetPercentageMode given)\<rparr>"

text \<open>Reading an entry: an absent key reads as \<open>undefined\<close>.\<close>

fun entryValue :: "'a entry \<Rightarrow> 'a option" where
  "entryValue Absent = None"
| "entryValue Undefined = None"
| "entryValue (Given v) = Some v"

text \<open>
  The options as the evaluation reads them. The engine reads \<open>options.offset!\<close>: it asserts
  that the offset object is defined, and the evaluation is modelled for the options that
  meet the assertion. The window events and the percentage mode may be \<open>undefined\<close>.
\<close>

record Options =
  options_context :: "HTMLElement option"
  windowEvents :: "string list option"
  offset :: IOffset
  offsetPercentageMode :: "TPercentageMode option"
  scrollAmount :: "IScrollAmount option"

datatype position = Top | Left | Right | Bottom

fun offset_at :: "IOffset \<Rightarrow> position \<Rightarrow> TOffset option" where
  "offset_at off Top = offset_top off"
| "offset_at off Left = offset_left off"
| "offset_at off Right = offset_right off"
| "offset_at off Bottom = offset_bottom off"

fun Subject_at :: "Subject \<Rightarrow> position \<Rightarrow> double" where
  "Subject_at s Top = Subject_top s"
| "Subject_at s Left = Subject_left s"
| "Subject_at s Right = Subject_right s"
| "Subject_at s Bottom = Subject_bottom s"

section \<open>InView\<close>

record IVisibility =
  visible :: bool
  topLeft :: bool
  topRight :: bool
  bottomLeft :: bool
  bottomRight :: bool

datatype error = TypeError

text \<open>
  The engine. The callback has no result; its effect is modelled as the list of the
  values it has been called with, in order.
\<close>

record InView =
  this_context :: Context
  this_subject :: Subject
  this_options :: Options
  calls :: "IVisibility list"

text \<open>
  \<open>validateOptions\<close>: the loop over the keys of \<open>offset\<close>. The only outcome of the loop is
  whether it throws, which does not depend on the order of the keys. A loop over
  \<open>undefined\<close> has no iteration.
\<close>

fun validateOffsets :: "IOffset \<Rightarrow> position list \<Rightarrow> error + unit" where
  "validateOffsets off [] = Inr ()"
| "validateOffsets off (k # ks) =
     (case offset_at off k of
        Some (OStr v) \<Rightarrow>
          if lastIndexOf v percentSign \<noteq> int (length v) - 1 then Inl TypeError
          else validateOffsets off ks
      | _ \<Rightarrow> validateOffsets off ks)"

definition validateOptions :: "IOptions \<Rightarrow> error + unit" where
  "validateOptions opts =
     (case given_offset opts of
        Given off \<Rightarrow> validateOffsets off [Top, Left, Right, Bottom]
      | _ \<Rightarrow> Inr ())"

text \<open>\<open>!positionOffset\<close> for an offset that is present.\<close>

fun falsy :: "TOffset \<Rightarrow> bool" where
  "falsy (ONum n) = (n = Num (D 0) \<or> n = NaN)"
| "falsy (OStr s) = (s = [])"
| "falsy (OFun f) = False"

definition getSubjectPosition :: "InView \<Rightarrow> position \<Rightarrow> jsnum" where
  "getSubjectPosition that position =
     (let value = Subject_at (this_subject that) position;
          positionOffset = offset_at (offset (this_options that)) position;
          sign = (if position = Top \<or> position = Left then D 1 else D (- 1));
          result = Num value
      in case positionOffset of
           None \<Rightarrow> result
         | Some po \<Rightarrow>
             if falsy po then result
             else js_floor
               (case po of
                  ONum n \<Rightarrow> js_add result (js_mul n (Num sign))
                | OFun f \<Rightarrow>
                    js_add result
                      (js_mul (f (this_subject that) (this_context that)) (Num sign))
                | OStr str \<Rightarrow>
                    (let dimension =
                       (if offsetPercentageMode (this_options that) = Some Parent
                        then (if position = Top \<or> position = Bottom
                              then innerHeight (this_context that)
                              else innerWidth (this_context that))
                        else (if position = Top \<or> position = Bottom
                              then Subject_height (this_subject that)
                              else Subject_width (this_subject that)))
                     in js_add result
                          (js_mul (Num (d_div dimension (D 100)))
                             (js_mul (parseInt str) (Num sign))))))"

text \<open>The local constants of \<open>eventsHandler\<close>, as functions of the edges they read.\<close>

definition topVisible :: "jsnum \<Rightarrow> double \<Rightarrow> double \<Rightarrow> bool" where
  "topVisible childTop parentTop parentBottom =
     (js_ge childTop (Num parentTop) \<and> js_lt childTop (Num parentBottom))"

definition bottomVisible :: "jsnum \<Rightarrow> double \<Rightarrow> double \<Rightarrow> bool" where
  "bottomVisible childBottom parentTop parentBottom =
     (js_lt childBottom (Num parentBottom) \<and> js_ge childBottom (Num parentTop))"

definition leftVisible :: "jsnum \<Rightarrow> double \<Rightarrow> double \<Rightarrow> bool" where
  "leftVisible childLeft parentLeft parentRight =
     (js_ge childLeft (Num parentLeft) \<and> js_lt childLeft (Num parentRight))"

definition rightVisible :: "jsnum \<Rightarrow> double \<Rightarrow> double \<Rightarrow> bool" where
  "rightVisible childRight parentLeft parentRight =
     (js_le childRight (Num parentRight) \<and> js_ge childRight (Num parentLeft))"

definition overflowY :: "jsnum \<Rightarrow> jsnum \<Rightarrow> double \<Rightarrow> double \<Rightarrow> bool" where
  "overflowY childTop childBottom parentTop parentBottom =
     (js_le childTop (Num parentTop) \<and> js_ge childBottom (Num parentBottom))"

definition overflowX :: "jsnum \<Rightarrow> jsnum \<Rightarrow> double \<Rightarrow> double \<Rightarrow> bool" where
  "overflowX childLeft childRight parentLeft parentRight =
     (js_le childLeft (Num parentLeft) \<and> js_ge childRight (Num parentRight))"

definition parentTop :: "InView \<Rightarrow> double" where
  "parentTop that = Context_top (this_context that)"

definition parentLeft :: "InView \<Rightarrow> double" where
  "parentLeft that = Context_left (this_context that)"

definition parentBottom :: "InView \<Rightarrow> double" where
  "parentBottom that = d_add (parentTop that) (innerHeight (this_context that))"

definition parentRight :: "InView \<Rightarrow> double" where
  "parentRight that = d_add (parentLeft that) (innerWidth (this_context that))"

text \<open>\<open>options.scrollAmount || {top: 0, left: 0}\<close>\<close>

definition scrollAmountOrDefault :: "Options \<Rightarrow> IScrollAmount" where
  "scrollAmountOrDefault opts =
     (case scrollAmount opts of
        None \<Rightarrow> \<lparr>amount_top = Some (Num (D 0)), amount_left = Some (Num (D 0))\<rparr>
      | Some a \<Rightarrow> a)"

text \<open>The condition of the early return: scrolled less than the defined minimum.\<close>

definition scrolledLessThanMinimum :: "InView \<Rightarrow> bool" where
  "scrolledLessThanMinimum that =
     (let amount = scrollAmountOrDefault (this_options that);
          scrollTopDiff' = js_abs (Num (scrollTopDiff (this_context that)));
          scrollLeftDiff' = js_abs (Num (scrollLeftDiff (this_context that)))
      in (js_gt scrollTopDiff' (Num (D 0))
            \<and> js_le scrollTopDiff' (ToNumber (amount_top amount)))
       \<or> (js_gt scrollLeftDiff' (Num (D 0))
            \<and> js_le scrollLeftDiff' (ToNumber (amount_left amount))))"

definition visibility :: "InView \<Rightarrow> IVisibility" where
  "visibility that =
     (let childTop = getSubjectPosition that Top;
          childLeft = getSubjectPosition that Left;
          childBottom = getSubjectPosition that Bottom;
          childRight = getSubjectPosition that Right;
          tv = topVisible childTop (parentTop that) (parentBottom that);
          bv = bottomVisible childBottom (parentTop that) (parentBottom that);
          lv = leftVisible childLeft (parentLeft that) (parentRight that);
          rv = rightVisible childRight (parentLeft that) (parentRight that);
          oy = overflowY childTop childBottom (parentTop that) (parentBottom that);
          ox = overflowX childLeft childRight (parentLeft that) (parentRight that)
      in \<lparr>visible = (tv \<or> bv \<or> oy) \<and> (lv \<or> rv \<or> ox),
          topLeft = tv \<and> lv,
          topRight = tv \<and> rv,
          bottomLeft = bv \<and> lv,
          bottomRight = bv \<and> rv\<rparr>)"

definition eventsHandler :: "InView \<Rightarrow> InView" where
  "eventsHandler that =
     (if scrolledLessThanMinimum that then that
      else that\<lparr>calls := calls that @ [visibility that]\<rparr>)"

definition recalculate :: "InView \<Rightarrow> InView" where
  "recalculate that = eventsHandler that"

text \<open>
  The bound listener of the context: it stores the event, refreshes the scroll snapshot
  and calls the handler.
\<close>

definition listener :: "(InView \<Rightarrow> InView) \<Rightarrow> Event \<Rightarrow> InView \<Rightarrow> InView" where
  "listener handler e that =
     handler (that\<lparr>this_context := populateScroll ((this_context that)\<lparr>event := Some e\<rparr>)\<rparr>)"

text \<open>
  What the constructor does: it throws, or it returns an engine. An engine built from
  options with an explicit \<open>offset: undefined\<close> has its context, its subject and its
  listeners, but no offset object: each of its evaluations that passes the noise gate
  throws at \<open>offset[position]\<close>, and its evaluation is not modelled.
\<close>

datatype construction =
    Thrown error
  | Constructed InView
  | ConstructedWithoutOffset Context Subject

text \<open>
  The constructor, given the listeners already registered with the host, the tracked
  element and the root element of its owner document. It returns the registry with the
  outcome.
\<close>

definition InView_new ::
  "registry \<Rightarrow> HTMLElement \<Rightarrow> HTMLElement \<Rightarrow> IOptions \<Rightarrow> registry \<times> construction" where
  "InView_new reg element ownerDocument given =
     (let opts = mergeDefaults given in
      case validateOptions opts of
        Inl err \<Rightarrow> (reg, Thrown err)
      | Inr _ \<Rightarrow>
          (let subj = \<lparr>subject_element = element\<rparr>;
               ctx = Context_new (case given_context opts of
                                    Some c \<Rightarrow> Element c | None \<Rightarrow> Document ownerDocument);
               rc = listen (entryValue (given_windowEvents opts)) (reg, ctx)
           in (fst rc,
               case given_offset opts of
                 Given off \<Rightarrow>
                   Constructed
                     \<lparr>this_context = snd rc, this_subject = subj,
                      this_options =
                        \<lparr>options_context = given_context opts,
                         windowEvents = entryValue (given_windowEvents opts),
                         offset = off,
                         offsetPercentageMode = entryValue (given_offsetPercentageMode opts),
                         scrollAmount = given_scrollAmount opts\<rparr>,
                      calls = []\<rparr>
               | _ \<Rightarrow> ConstructedWithoutOffset (snd rc) subj)))"

definition stop :: "registry \<times> InView \<Rightarrow> registry \<times> InView" where
  "stop ri =
     (let rc = unlisten (fst ri, this_context (snd ri))
      in (fst rc, (snd ri)\<lparr>this_context := snd rc\<rparr>))"

text \<open>
  The host changes the nodes between two calls of the engine: the wrappers then show the
  new state of the nodes, and nothing else of the engine changes.
\<close>

definition hostChange :: "node \<Rightarrow> HTMLElement \<Rightarrow> InView \<Rightarrow> InView" where
  "hostChange n el that =
     that\<lparr>this_context := (this_context that)\<lparr>context_element := n\<rparr>,
          this_subject := \<lparr>subject_element = el\<rparr>\<rparr>"

section \<open>Example pages\<close>

definition box :: "real \<Rightarrow> real \<Rightarrow> real \<Rightarrow> real \<Rightarrow> ClientRect" where
  "box t l r b =
     \<lparr>rect_top = D t, rect_left = D l, rect_right = D r, rect_bottom = D b,
      rect_width = d_sub (D r) (D l), rect_height = d_sub (D b) (D t)\<rparr>"

text \<open>An element with the given rectangle that is not scrolled and has no client box.\<close>

definition plainElement :: "ClientRect \<Rightarrow> HTMLElement" where
  "plainElement r =
     \<lparr>boundingClientRect = r, clientHeight = 0, clientWidth = 0,
      scrollTop = D 0, scrollLeft = D 0\<rparr>"

text \<open>The root element of a document with a viewport of the given height and width, scrolled
  to the given offsets.\<close>

definition rootElement :: "nat \<Rightarrow> nat \<Rightarrow> real \<Rightarrow> real \<Rightarrow> HTMLElement" where
  "rootElement h w st sl =
     \<lparr>boundingClientRect = box (- st) (- sl) (real w - sl) (real h - st),
      clientHeight = h, clientWidth = w, scrollTop = D st, scrollLeft = D sl\<rparr>"

definition noOffset :: IOffset where
  "noOffset = \<lparr>offset_top = None, offset_left = None, offset_right = None, offset_bottom = None\<rparr>"

text \<open>An engine on an unscrolled document with a viewport of the given height and 800 wide,
  tracking an element with the given rectangle, with the given offsets, percentage mode
  and minimum scroll amount.\<close>

definition engineOn ::
  "nat \<Rightarrow> ClientRect \<Rightarrow> IOffset \<Rightarrow> TPercentageMode \<Rightarrow> IScrollAmount option \<Rightarrow> InView" where
  "engineOn h r off mode amount =
     \<lparr>this_context = snd (listen (Some [''DOMContentLoaded'', ''resize''])
                          ([], Context_new (Document (rootElement h 800 0 0)))),
      this_subject = \<lparr>subject_element = plainElement r\<rparr>,
      this_options = \<lparr>options_context = None,
                       windowEvents = Some [''DOMContentLoaded'', ''resize''],
                       offset = off, offsetPercentageMode = Some mode, scrollAmount = amount\<rparr>,
      calls = []\<rparr>"

text \<open>The same with a viewport 400 high.\<close>

definition exampleEngine ::
  "ClientRect \<Rightarrow> IOffset \<Rightarrow> TPercentageMode \<Rightarrow> IScrollAmount option \<Rightarrow> InView" where
  "exampleEngine r off mode amount = engineOn 400 r off mode amount"

text \<open>A rectangle whose top and right edges fall between two pixels.\<close>

definition fractionalBox :: ClientRect where
  "fractionalBox = box (21 / 2) 20 (1601 / 2) 50"

definition topOffset :: "TOffset \<Rightarrow> IOffset" where
  "topOffset v = noOffset\<lparr>offset_top := Some v\<rparr>"

definition scrollEvent :: Event where
  "scrollEvent = \<lparr>event_target = ContextTarget, event_type = ''scroll''\<rparr>"

text \<open>The host scrolls the example document to the given offsets; the tracked element then
  has the given rectangle.\<close>

definition pageScrolled :: "real \<Rightarrow> real \<Rightarrow> ClientRect \<Rightarrow> InView \<Rightarrow> InView" where
  "pageScrolled st sl r that =
     hostChange (Document (rootElement 400 800 st sl)) (plainElement r) that"

definition minimumScroll :: "real \<Rightarrow> real \<Rightarrow> IScrollAmount option" where
  "minimumScroll a b = Some \<lparr>amount_top = Some (Num (D a)), amount_left = Some (Num (D b))\<rparr>"

text \<open>Options whose only entry is the offset of the top edge.\<close>

definition topOffsetOptions :: "TOffset \<Rightarrow> IOptions" where
  "topOffsetOptions v =
     \<lparr>given_context = None, given_windowEvents = Absent, given_offset = Given (topOffset v),
      given_offsetPercentageMode = Absent, given_scrollAmount = None\<rparr>"

text \<open>Options with every key of a default present and \<open>undefined\<close>.\<close>

definition undefinedOptions :: IOptions where
  "undefinedOptions =
     \<lparr>given_context = None, given_windowEvents = Undefined, given_offset = Undefined,
      given_offsetPercentageMode = Undefined, given_scrollAmount = None\<rparr>"

section \<open>The properties of the specification, in its words\<close>

text \<open>The direction invariant of the scroll snapshot.\<close>

definition directionsMatchDiffs :: "Scroll \<Rightarrow> bool" where
  "directionsMatchDiffs s =
     ((dirY s = DIR_NONE) = (val (topDiff s) = 0)
      \<and> (dirY s = DIR_DOWN) = (val (topDiff s) > 0)
      \<and> (dirY s = DIR_UP) = (val (topDiff s) < 0)
      \<and> (dirX s = DIR_NONE) = (val (leftDiff s) = 0)
      \<and> (dirX s = DIR_RIGHT) = (val (leftDiff s) > 0)
      \<and> (dirX s = DIR_LEFT) = (val (leftDiff s) < 0))"

text \<open>A string that ends in the percent sign.\<close>

definition endsInPercent :: "jsstring \<Rightarrow> bool" where
  "endsInPercent v = (v \<noteq> [] \<and> last v = percentSign)"
section \<open>Facts about the number model\<close>

subsection \<open>Rounding\<close>

lemma round_even_of_int [simp]: "round_even (of_int k) = k"
  by (simp add: round_even_def)

lemma round_even_minus: "round_even (- r) = - round_even r"
proof (cases "r \<in> \<int>")
  case True
  then obtain k where "r = of_int k" by (auto simp: Ints_def)
  then show ?thesis by (simp flip: of_int_minus)
next
  case False
  then have n: "r \<noteq> of_int \<lfloor>r\<rfloor>"
    by (metis Ints_of_int)
  then have "\<lceil>r\<rceil> = \<lfloor>r\<rfloor> + 1"
    by (simp add: ceiling_altdef)
  then have f: "\<lfloor>- r\<rfloor> = - \<lfloor>r\<rfloor> - 1"
    by (simp add: ceiling_def)
  show ?thesis
    using n unfolding round_even_def Let_def f
    by (auto simp: field_simps)
qed

lemma round_even_ge: "of_int k \<le> r \<Longrightarrow> k \<le> round_even r"
proof -
  assume "of_int k \<le> r"
  then have "k \<le> \<lfloor>r\<rfloor>" by (simp add: le_floor_iff)
  then show ?thesis by (simp add: round_even_def Let_def)
qed

lemma round_even_le: "r \<le> of_int k \<Longrightarrow> round_even r \<le> k"
  using round_even_ge [of "- k" "- r"] by (simp add: round_even_minus)

lemma expo_bounds:
  assumes "x \<noteq> 0"
  shows "2 powi (expo x) \<le> \<bar>x\<bar>" and "\<bar>x\<bar> < 2 powi (expo x + 1)"
proof -
  have "2 powi (expo x) \<le> \<bar>x\<bar> \<and> \<bar>x\<bar> < 2 powi (expo x + 1)"
  proof (cases "1 \<le> \<bar>x\<bar>")
    case True
    define n where "n = \<lfloor>\<bar>x\<bar>\<rfloor>"
    have n: "0 < n" using True by (simp add: n_def)
    then have b: "1 \<le> bitlen n" by (simp add: bitlen_alt_def)
    have e: "expo x = bitlen n - 1" using True by (simp add: expo_def n_def)
    from bitlen_bounds [OF n]
    have lo: "(2::int) ^ nat (bitlen n - 1) \<le> \<lfloor>\<bar>x\<bar>\<rfloor>"
      and hi: "\<lfloor>\<bar>x\<bar>\<rfloor> < 2 ^ nat (bitlen n)" by (auto simp: n_def)
    have 1: "(2::real) ^ nat (bitlen n - 1) \<le> \<bar>x\<bar>"
      using lo unfolding le_floor_iff by simp
    have 2: "\<bar>x\<bar> < (2::real) ^ nat (bitlen n)"
      using hi unfolding floor_less_iff by simp
    show ?thesis
      using 1 2 b by (simp add: e power_int_def)
  next
    case False
    define y where "y = 1 / \<bar>x\<bar>"
    have y: "1 < y" using False assms by (simp add: y_def)
    then have m: "0 < \<lceil>y\<rceil> - 1" by (simp add: less_ceiling_iff)
    define b where "b = bitlen (\<lceil>y\<rceil> - 1)"
    have b: "1 \<le> b" using m by (simp add: b_def bitlen_alt_def)
    have e: "expo x = - b" using False by (simp add: expo_def b_def y_def)
    from bitlen_bounds [OF m]
    have lo: "(2::int) ^ nat (b - 1) \<le> \<lceil>y\<rceil> - 1" and hi: "\<lceil>y\<rceil> - 1 < 2 ^ nat b"
      by (auto simp: b_def)
    have "\<lceil>y\<rceil> \<le> 2 ^ nat b" using hi by simp
    then have 1: "y \<le> 2 ^ nat b"
      unfolding ceiling_le_iff by simp
    have "(2::int) ^ nat (b - 1) < \<lceil>y\<rceil>" using lo by simp
    then have 2: "2 ^ nat (b - 1) < y"
      unfolding less_ceiling_iff by simp
    have x: "\<bar>x\<bar> = 1 / y" using assms by (simp add: y_def)
    have p1: "2 powi (- b) = 1 / (2::real) ^ nat b"
      using b by (simp add: power_int_def field_simps)
    have p2: "2 powi (1 - b) = 1 / (2::real) ^ nat (b - 1)"
      using b by (cases "b = 1") (simp_all add: power_int_def field_simps nat_diff_distrib)
    have "1 / (2::real) ^ nat b \<le> 1 / y"
      using 1 y by (simp add: frac_le)
    moreover have "1 / y < 1 / (2::real) ^ nat (b - 1)"
      using 2 y by (simp add: frac_less2)
    ultimately show ?thesis
      by (simp add: e p1 p2 x)
  qed
  then show "2 powi (expo x) \<le> \<bar>x\<bar>" and "\<bar>x\<bar> < 2 powi (expo x + 1)"
    by simp_all
qed

lemma expo_unique:
  assumes "2 powi e \<le> \<bar>x\<bar>" and "\<bar>x\<bar> < 2 powi (e + 1)"
  shows "expo x = e"
proof -
  have "\<not> (2::real) powi e \<le> 0" by (simp add: not_le)
  then have x: "x \<noteq> 0"
    using assms(1) by auto
  note b = expo_bounds [OF x]
  have "2 powi e < (2::real) powi (expo x + 1)"
    using assms(1) b(2) by linarith
  then have 1: "e < expo x + 1"
    using power_int_increasing [of "expo x + 1" e "2::real"] by (cases "e < expo x + 1") auto
  have "2 powi (expo x) < (2::real) powi (e + 1)"
    using assms(2) b(1) by linarith
  then have 2: "expo x < e + 1"
    using power_int_increasing [of "e + 1" "expo x" "2::real"] by (cases "expo x < e + 1") auto
  show ?thesis using 1 2 by simp
qed

lemma expo_minus [simp]: "expo (- x) = expo x"
  by (simp add: expo_def)

lemma ulp_pos [simp]: "0 < ulp x"
  by (simp add: ulp_def)

lemma ulp_minus [simp]: "ulp (- x) = ulp x"
  by (simp add: ulp_def)

lemma ulp_abs [simp]: "\<bar>ulp x\<bar> = ulp x"
  by (simp add: ulp_def)

lemma fl_0 [simp]: "fl 0 = 0"
  by (simp add: fl_def)

lemma fl_minus: "fl (- x) = - fl x"
  by (simp add: fl_def round_even_minus)

lemma fl_at:
  assumes "2 powi e \<le> \<bar>x\<bar>" and "\<bar>x\<bar> < 2 powi (e + 1)"
  shows "fl x = of_int (round_even (x / 2 powi (e - 52))) * 2 powi (e - 52)"
proof -
  have "\<not> (2::real) powi e \<le> 0" by (simp add: not_le)
  then have "x \<noteq> 0" using assms(1) by auto
  then show ?thesis
    by (simp add: fl_def ulp_def expo_unique [OF assms])
qed

lemma scaled_bounds:
  assumes "x \<noteq> 0"
  shows "2 ^ 52 \<le> \<bar>x / ulp x\<bar>" and "\<bar>x / ulp x\<bar> < 2 ^ 53"
proof -
  have u: "ulp x * 2 ^ 52 = 2 powi (expo x)" "ulp x * 2 ^ 53 = 2 powi (expo x + 1)"
    by (simp_all add: ulp_def power_int_diff power_int_add)
  have a: "\<bar>x / ulp x\<bar> = \<bar>x\<bar> / ulp x"
    by (simp add: abs_divide)
  show "2 ^ 52 \<le> \<bar>x / ulp x\<bar>"
    unfolding a using expo_bounds(1) [OF assms] u(1)
    by (simp add: le_divide_eq mult.commute)
  show "\<bar>x / ulp x\<bar> < 2 ^ 53"
    unfolding a using expo_bounds(2) [OF assms] u(2)
    by (simp add: divide_less_eq mult.commute)
qed

lemma fl_exact:
  assumes "\<bar>m\<bar> < 2 ^ 53"
  shows "fl (of_int m * 2 powi q) = of_int m * 2 powi q"
proof (cases "m = 0")
  case True
  then show ?thesis by simp
next
  case False
  define x :: real where "x = of_int m * 2 powi q"
  have x: "x \<noteq> 0" using False by (simp add: x_def)
  define n where "n = q - (expo x - 52)"
  have "2 powi (expo x) \<le> \<bar>x\<bar>" by (rule expo_bounds(1) [OF x])
  also have "\<bar>x\<bar> = \<bar>of_int m\<bar> * 2 powi q"
    by (simp add: x_def abs_mult)
  also have "\<dots> < 2 ^ 53 * 2 powi q"
  proof -
    have "real_of_int \<bar>m\<bar> < real_of_int (2 ^ 53)"
      using assms by linarith
    then show ?thesis by simp
  qed
  also have "\<dots> = 2 powi (53 + q)"
    by (simp add: power_int_add)
  finally have "expo x < 53 + q"
    using power_int_increasing [of "53 + q" "expo x" "2::real"]
    by (cases "expo x < 53 + q") auto
  then have n: "0 \<le> n" by (simp add: n_def)
  have "x / ulp x = of_int m * 2 powi n"
    by (simp add: x_def ulp_def n_def power_int_diff)
  also have "\<dots> = of_int (m * 2 ^ nat n)"
    using n by (simp add: power_int_def)
  finally have r: "round_even (x / ulp x) = m * 2 ^ nat n"
    by (simp only: round_even_of_int)
  have "fl x = of_int (m * 2 ^ nat n) * ulp x"
    using x by (simp add: fl_def r)
  also have "\<dots> = of_int m * (2 powi n * ulp x)"
    using n by (simp add: power_int_def)
  also have "2 powi n * ulp x = 2 powi q"
    by (simp add: ulp_def n_def flip: power_int_add)
  finally show ?thesis by (simp add: x_def)
qed

lemma fl_idem [simp]: "fl (fl x) = fl x"
proof (cases "x = 0")
  case True
  then show ?thesis by simp
next
  case False
  define k where "k = round_even (x / ulp x)"
  have f: "fl x = of_int k * 2 powi (expo x - 52)"
    using False by (simp add: fl_def k_def ulp_def)
  from scaled_bounds [OF False]
  have "- (2 ^ 53) < x / ulp x" "x / ulp x < 2 ^ 53" by (simp_all add: abs_less_iff)
  then have "x / ulp x \<le> of_int (2 ^ 53)" "of_int (- (2 ^ 53)) \<le> x / ulp x"
    by simp_all
  then have kb: "k \<le> 2 ^ 53" "- (2 ^ 53) \<le> k"
    unfolding k_def by (simp_all only: round_even_le round_even_ge)
  consider "\<bar>k\<bar> < 2 ^ 53" | "k = 2 ^ 53" | "k = - (2 ^ 53)"
    using kb by linarith
  then show ?thesis
  proof cases
    case 1
    then show ?thesis unfolding f by (rule fl_exact)
  next
    case 2
    have "fl x = of_int (2 ^ 52) * 2 powi (expo x - 51)"
      unfolding f 2 by (simp add: power_int_diff)
    moreover have "fl (of_int (2 ^ 52) * 2 powi (expo x - 51)) =
        of_int (2 ^ 52) * 2 powi (expo x - 51)"
      by (rule fl_exact) simp
    ultimately show ?thesis by simp
  next
    case 3
    have "fl x = of_int (- (2 ^ 52)) * 2 powi (expo x - 51)"
      unfolding f 3 by (simp add: power_int_diff)
    moreover have "fl (of_int (- (2 ^ 52)) * 2 powi (expo x - 51)) =
        of_int (- (2 ^ 52)) * 2 powi (expo x - 51)"
      by (rule fl_exact) simp
    ultimately show ?thesis by simp
  qed
qed

lemma fl_pos: "0 < x \<Longrightarrow> 0 < fl x"
proof -
  assume p: "0 < x"
  then have x: "x \<noteq> 0" by simp
  have "of_int (2 ^ 52) \<le> x / ulp x"
    using scaled_bounds(1) [OF x] p by simp
  then have "2 ^ 52 \<le> round_even (x / ulp x)"
    by (rule round_even_ge)
  moreover have "(0::int) < 2 ^ 52" by simp
  ultimately have "0 < round_even (x / ulp x)" by linarith
  then have "0 < real_of_int (round_even (x / ulp x))" by simp
  then show ?thesis
    using x by (simp add: fl_def)
qed

lemma fl_neg: "x < 0 \<Longrightarrow> fl x < 0"
  using fl_pos [of "- x"] by (simp add: fl_minus)

lemma fl_eq_0_iff [simp]: "fl x = 0 \<longleftrightarrow> x = 0"
proof
  assume z: "fl x = 0"
  show "x = 0"
  proof (rule ccontr)
    assume "x \<noteq> 0"
    then consider "0 < x" | "x < 0" by linarith
    then show False
      using fl_pos [of x] fl_neg [of x] z by cases simp_all
  qed
qed simp

lemma fl_pos_iff [simp]: "0 < fl x \<longleftrightarrow> 0 < x"
proof
  assume p: "0 < fl x"
  show "0 < x"
  proof (rule ccontr)
    assume "\<not> 0 < x"
    then consider "x = 0" | "x < 0" by linarith
    then show False
      using fl_neg [of x] p by cases simp_all
  qed
qed (rule fl_pos)

lemma fl_neg_iff [simp]: "fl x < 0 \<longleftrightarrow> x < 0"
  using fl_pos_iff [of "- x"] by (simp add: fl_minus)

lemma fl_nonneg_iff [simp]: "0 \<le> fl x \<longleftrightarrow> 0 \<le> x"
  using fl_neg_iff [of x] by (simp only: not_less [symmetric])

lemma fl_abs: "fl \<bar>x\<bar> = \<bar>fl x\<bar>"
proof (cases "0 \<le> x")
  case True
  then show ?thesis by simp
next
  case False
  then have "x < 0" by simp
  then show ?thesis by (simp add: fl_minus abs_if)
qed

lemma fl_le:
  assumes y: "fl y = y" and le: "y \<le> x"
  shows "y \<le> fl x"
proof (cases "x = 0")
  case True
  then show ?thesis using le by simp
next
  case False
  define u where "u = ulp x"
  have u: "0 < u" by (simp add: u_def)
  have f: "fl x = of_int (round_even (x / u)) * u"
    using False by (simp add: fl_def u_def)
  have key: "y \<le> fl x" if j: "y \<le> of_int j * u" "of_int j * u \<le> x" for j
  proof -
    have "of_int j \<le> x / u"
      using j(2) u by (simp add: le_divide_eq)
    then have "j \<le> round_even (x / u)" by (rule round_even_ge)
    then have "real_of_int j \<le> real_of_int (round_even (x / u))" by linarith
    then have "of_int j * u \<le> of_int (round_even (x / u)) * u"
      using u by (simp add: mult_right_mono)
    then show ?thesis using j(1) f by linarith
  qed
  have pe: "2 powi (expo x) = of_int (2 ^ 52) * u"
    by (simp add: u_def ulp_def power_int_diff)
  show ?thesis
  proof (cases "0 < x")
    case True
    note b = expo_bounds [OF False]
    show ?thesis
    proof (cases "y < 2 powi (expo x)")
      case True
      show ?thesis
      proof (rule key)
        show "y \<le> of_int (2 ^ 52) * u" using True pe by simp
        show "of_int (2 ^ 52) * u \<le> x" using b(1) \<open>0 < x\<close> pe by simp
      qed
    next
      case False
      then have "2 powi (expo x) \<le> \<bar>y\<bar>" by simp
      moreover have "\<bar>y\<bar> < 2 powi (expo x + 1)"
      proof -
        have "0 < (2::real) powi (expo x)" by simp
        then have "0 < y" using False by linarith
        then show ?thesis using le b(2) \<open>0 < x\<close> by simp
      qed
      ultimately have "expo y = expo x" by (rule expo_unique)
      then have "ulp y = u" by (simp add: ulp_def u_def)
      moreover have "y \<noteq> 0"
        using False zero_less_power_int [of "2::real" "expo x"] by auto
      ultimately have yy: "y = of_int (round_even (y / u)) * u"
        using y by (simp add: fl_def)
      show ?thesis
      proof (rule key)
        show "y \<le> of_int (round_even (y / u)) * u" using yy by simp
        show "of_int (round_even (y / u)) * u \<le> x" using yy le by simp
      qed
    qed
  next
    case n: False
    then have xn: "x < 0" using False by simp
    then have yn: "y < 0" "y \<noteq> 0" using le by simp_all
    have "2 powi (expo x) \<le> \<bar>x\<bar>" by (rule expo_bounds(1) [OF False])
    also have "\<bar>x\<bar> \<le> \<bar>y\<bar>" using xn le by simp
    also have "\<bar>y\<bar> < 2 powi (expo y + 1)" by (rule expo_bounds(2) [OF yn(2)])
    finally have "expo x < expo y + 1"
      using power_int_increasing [of "expo y + 1" "expo x" "2::real"]
      by (cases "expo x < expo y + 1") auto
    then have d: "0 \<le> expo y - expo x" by simp
    have "ulp y = 2 powi (expo y - expo x) * u"
      by (simp add: ulp_def u_def flip: power_int_add)
    also have "\<dots> = of_int (2 ^ nat (expo y - expo x)) * u"
      using d by (simp add: power_int_def)
    finally have uy: "ulp y = of_int (2 ^ nat (expo y - expo x)) * u" .
    have "y = of_int (round_even (y / ulp y)) * ulp y"
      using y yn(2) by (simp add: fl_def)
    then have yy: "y = of_int (round_even (y / ulp y) * 2 ^ nat (expo y - expo x)) * u"
      by (simp add: uy)
    show ?thesis
    proof (rule key)
      show "y \<le> of_int (round_even (y / ulp y) * 2 ^ nat (expo y - expo x)) * u"
        using yy by simp
      show "of_int (round_even (y / ulp y) * 2 ^ nat (expo y - expo x)) * u \<le> x"
        using yy le by simp
    qed
  qed
qed

lemma fl_of_int_floor:
  assumes "fl x = x"
  shows "fl (of_int \<lfloor>x\<rfloor>) = of_int \<lfloor>x\<rfloor>"
proof (cases "x = 0")
  case True
  then show ?thesis by simp
next
  case False
  show ?thesis
  proof (cases "52 \<le> expo x")
    case True
    have "x = of_int (round_even (x / ulp x)) * 2 powi (expo x - 52)"
      using assms False by (simp add: fl_def ulp_def)
    also have "\<dots> = of_int (round_even (x / ulp x) * 2 ^ nat (expo x - 52))"
      using True by (simp add: power_int_def)
    finally obtain N where N: "x = of_int N" ..
    have fx: "of_int \<lfloor>x\<rfloor> = x"
      unfolding N by (simp only: floor_of_int)
    show ?thesis using assms by (simp only: fx)
  next
    case e: False
    have "\<bar>x\<bar> < 2 powi (expo x + 1)" by (rule expo_bounds(2) [OF False])
    also have "\<dots> \<le> 2 powi 52"
      using e by (intro power_int_increasing) simp_all
    finally have b: "\<bar>x\<bar> < 2 ^ 52" by simp
    have 1: "\<lfloor>x\<rfloor> < 4503599627370496"
      using b by (simp add: floor_less_iff)
    have 2: "- 4503599627370496 \<le> \<lfloor>x\<rfloor>"
      using b by (simp add: le_floor_iff)
    have "\<bar>\<lfloor>x\<rfloor>\<bar> < 9007199254740992"
      using 1 2 by linarith
    then have "\<bar>\<lfloor>x\<rfloor>\<bar> < 2 ^ 53" by simp
    from fl_exact [OF this, of 0] show ?thesis by simp
  qed
qed

subsection \<open>Doubles\<close>

text \<open>
  A double is computed through its value: it is built from a real that rounding leaves
  unchanged.
\<close>

lemma Abs_double_val [code abstype]: "Abs_double (val d) = d"
  by (rule val_inverse)

lemma fl_val [simp]: "fl (val d) = val d"
  using val [of d] by simp

lemma val_D [simp, code abstract]: "val (D x) = fl x"
  by (simp add: D_def Abs_double_inverse)

lemma D_val [simp]: "D (val d) = d"
  by (simp add: D_def val_inverse)

lemma double_eq_iff: "(a = b) = (val a = val b)"
  by (simp add: val_inject)

lemma fl_of_int: "\<bar>m\<bar> < 2 ^ 53 \<Longrightarrow> fl (of_int m) = of_int m"
  using fl_exact [of m 0] by simp

lemma fl_1 [simp]: "fl 1 = 1"
  using fl_of_int [of 1] by simp

lemma fl_numeral [simp]:
  "numeral n < (9007199254740992::int) \<Longrightarrow> fl (numeral n) = numeral n"
  using fl_of_int [of "numeral n"] by simp

lemma fl_neg_numeral [simp]:
  "numeral n < (9007199254740992::int) \<Longrightarrow> fl (- numeral n) = - numeral n"
  by (simp add: fl_minus)

lemma fl_half [simp]:
  "numeral n < (9007199254740992::int) \<Longrightarrow> fl (numeral n / 2) = numeral n / 2"
  using fl_exact [of "numeral n" "- 1"] by (simp add: field_simps)

lemma fl_of_nat: "n < 2 ^ 53 \<Longrightarrow> fl (real n) = real n"
  using fl_of_int [of "int n"] by simp

lemma val_d_add [simp, code abstract]: "val (d_add a b) = fl (val a + val b)"
  by (simp add: d_add_def)

lemma val_d_sub [simp, code abstract]: "val (d_sub a b) = fl (val a - val b)"
  by (simp add: d_sub_def)

lemma val_d_mul [simp, code abstract]: "val (d_mul a b) = fl (val a * val b)"
  by (simp add: d_mul_def)

lemma val_d_div [simp, code abstract]: "val (d_div a b) = fl (val a / val b)"
  by (simp add: d_div_def)

lemma val_d_floor [simp, code abstract]: "val (d_floor a) = of_int \<lfloor>val a\<rfloor>"
  by (simp add: d_floor_def fl_of_int_floor)

lemma val_d_abs [simp, code abstract]: "val (d_abs a) = \<bar>val a\<bar>"
  by (simp add: d_abs_def fl_abs)

lemma d_add_zero [simp]: "d_add a (D 0) = a"
  by (simp add: double_eq_iff)

lemma d_mul_one [simp]: "d_mul a (D 1) = a"
  by (simp add: double_eq_iff)

lemma d_mul_minus_one: "val (d_mul a (D (- 1))) = - val a"
  by (simp add: fl_minus)

lemma d_add_negated [simp]: "d_add a (d_mul b (D (- 1))) = d_sub a b"
  by (simp add: double_eq_iff d_mul_minus_one fl_minus)

lemma d_mul_zero [simp]: "d_mul a (D 0) = D 0" "d_mul (D 0) a = D 0"
  by (simp_all add: double_eq_iff)

lemma d_mul_sign:
  "s = D 1 \<or> s = D (- 1) \<Longrightarrow> d_mul a (d_mul p s) = d_mul (d_mul a p) s"
  by (auto simp: double_eq_iff fl_minus)

lemma d_sub_eq_0_iff [simp]: "(val (d_sub a b) = 0) = (a = b)"
  by (simp add: double_eq_iff)

lemma val_le_d_add:
  assumes "0 \<le> val w"
  shows "val a \<le> val (d_add a w)"
  unfolding val_d_add by (rule fl_le) (use assms in simp_all)

section \<open>Facts about the handler\<close>

lemma js_ge_le: "js_ge a b = js_le b a"
  by (cases a; cases b) auto

lemma eventsHandler_passes:
  "\<not> scrolledLessThanMinimum that \<Longrightarrow>
     eventsHandler that = that\<lparr>calls := calls that @ [visibility that]\<rparr>"
  by (simp add: eventsHandler_def)

lemma eventsHandler_context: "this_context (eventsHandler that) = this_context that"
  by (simp add: eventsHandler_def)

lemma calls_update_reads:
  "this_subject (that\<lparr>calls := c\<rparr>) = this_subject that"
  "this_context (that\<lparr>calls := c\<rparr>) = this_context that"
  "this_options (that\<lparr>calls := c\<rparr>) = this_options that"
  by simp_all

lemma getSubjectPosition_calls:
  "getSubjectPosition (that\<lparr>calls := c\<rparr>) position = getSubjectPosition that position"
  unfolding getSubjectPosition_def calls_update_reads by (rule refl)

lemma visibility_calls: "visibility (that\<lparr>calls := c\<rparr>) = visibility that"
  unfolding visibility_def parentTop_def parentLeft_def parentBottom_def parentRight_def
    calls_update_reads getSubjectPosition_calls
  by (rule refl)

lemma scrolledLessThanMinimum_iff:
  "scrolledLessThanMinimum that =
     ((0 < \<bar>val (scrollTopDiff (this_context that))\<bar>
        \<and> js_le (Num (d_abs (scrollTopDiff (this_context that))))
              (ToNumber (amount_top (scrollAmountOrDefault (this_options that)))))
      \<or> (0 < \<bar>val (scrollLeftDiff (this_context that))\<bar>
        \<and> js_le (Num (d_abs (scrollLeftDiff (this_context that))))
              (ToNumber (amount_left (scrollAmountOrDefault (this_options that))))))"
  by (simp add: scrolledLessThanMinimum_def Let_def)

lemma populateScroll_dirs: "directionsMatchDiffs (scroll (populateScroll c))"
  by (simp add: populateScroll_def Let_def directionsMatchDiffs_def double_eq_iff
      DIR_NONE_def DIR_UP_def DIR_DOWN_def DIR_LEFT_def DIR_RIGHT_def)

lemma listen_scroll: "scroll (snd (listen evs (reg, c))) = scroll c"
  by (simp add: listen_def Let_def split: option.splits)

lemma listener_diffs:
  "scrollTopDiff (this_context (listener eventsHandler e that)) =
     d_sub (scrollTop (getElement (context_element (this_context that))))
       (scroll_top (scroll (this_context that)))"
  "scrollLeftDiff (this_context (listener eventsHandler e that)) =
     d_sub (scrollLeft (getElement (context_element (this_context that))))
       (scroll_left (scroll (this_context that)))"
  by (simp_all add: listener_def eventsHandler_context scrollTopDiff_def scrollLeftDiff_def
      populateScroll_def Let_def)

lemma parseInt_Nil: "parseInt [] = NaN"
  by (simp add: parseInt_def)

lemma lastIndexOf_end: "(lastIndexOf s c = int (length s) - 1) = (s = [] \<or> last s = c)"
proof (cases s rule: rev_cases)
  case Nil
  then show ?thesis by (simp add: lastIndexOf_def)
next
  case (snoc ys y)
  then show ?thesis by (auto simp: lastIndexOf_def)
qed

subsection \<open>Reading the example pages\<close>

lemmas example_defs = exampleEngine_def engineOn_def plainElement_def rootElement_def box_def
  noOffset_def Context_new_def populateScroll_def listen_def Let_def fractionalBox_def
  topOffset_def pageScrolled_def hostChange_def minimumScroll_def scrollEvent_def
  topOffsetOptions_def undefinedOptions_def

lemmas read_defs = Subject_top_def Subject_left_def Subject_right_def Subject_bottom_def
  Subject_height_def Subject_width_def getRect_def Context_top_def Context_left_def
  innerHeight_def innerWidth_def scrollTopDiff_def scrollLeftDiff_def

lemmas parse_defs = parseInt_def isWhiteSpace_def isDigit_def digitValue_def codeUnits_def

lemma example_not_noisy: "\<not> scrolledLessThanMinimum (engineOn h r off mode None)"
  by (simp add: scrolledLessThanMinimum_def scrollAmountOrDefault_def example_defs read_defs)

lemma example_no_offset:
  "getSubjectPosition (engineOn h (box t l r b) noOffset mode amount) p =
     Num (D (case p of Top \<Rightarrow> t | Left \<Rightarrow> l | Right \<Rightarrow> r | Bottom \<Rightarrow> b))"
  by (cases p) (simp_all add: getSubjectPosition_def example_defs read_defs)

lemma example_parent:
  "Context_top (this_context (engineOn h r off mode amount)) = D 0"
  "Context_left (this_context (engineOn h r off mode amount)) = D 0"
  "innerHeight (this_context (engineOn h r off mode amount)) = D (real h)"
  "innerWidth (this_context (engineOn h r off mode amount)) = D 800"
  "calls (engineOn h r off mode amount) = []"
  by (simp_all add: example_defs read_defs)

lemma pageScrolled_reads:
  "scrollTop (getElement (context_element (this_context (pageScrolled st sl r that)))) = D st"
  "scrollLeft (getElement (context_element (this_context (pageScrolled st sl r that)))) = D sl"
  "scroll (this_context (pageScrolled st sl r that)) = scroll (this_context that)"
  "this_options (pageScrolled st sl r that) = this_options that"
  "calls (pageScrolled st sl r that) = calls that"
  by (simp_all add: pageScrolled_def hostChange_def rootElement_def)

lemma exampleEngine_reads:
  "scroll_top (scroll (this_context (exampleEngine r off mode amount))) = D 0"
  "scroll_left (scroll (this_context (exampleEngine r off mode amount))) = D 0"
  "scrollAmountOrDefault (this_options (exampleEngine r off mode (minimumScroll a b))) =
     \<lparr>amount_top = Some (Num (D a)), amount_left = Some (Num (D b))\<rparr>"
  "calls (exampleEngine r off mode amount) = []"
  by (simp_all add: example_defs scrollAmountOrDefault_def)

lemma hostChange_reads:
  "scroll (this_context (hostChange n el that)) = scroll (this_context that)"
  "this_options (hostChange n el that) = this_options that"
  "calls (hostChange n el that) = calls that"
  by (simp_all add: hostChange_def)

lemma example_constructed:
  "InView_new [] (plainElement r) (rootElement 400 800 0 0)
      (topOffsetOptions (OStr (codeUnits ''50%'')))
     = ([(ContextTarget, ''scroll''), (WindowTarget, ''DOMContentLoaded''),
         (WindowTarget, ''resize'')],
        Constructed (exampleEngine r (topOffset (OStr (codeUnits ''50%''))) Parent None))"
  by (simp add: lastIndexOf_def percentSign_def codeUnits_def validateOptions_def
      mergeDefaults_def InView_new_def example_defs)

subsection \<open>The branches of the offset resolution\<close>

lemma getSubjectPosition_none:
  "offset_at (offset (this_options that)) position = None \<Longrightarrow>
     getSubjectPosition that position = Num (Subject_at (this_subject that) position)"
  by (simp add: getSubjectPosition_def)

lemma getSubjectPosition_number:
  assumes "offset_at (offset (this_options that)) position = Some (ONum (Num d))"
    and "val d \<noteq> 0"
  shows "getSubjectPosition that position =
           Num (d_floor (d_add (Subject_at (this_subject that) position)
                  (d_mul d (if position = Top \<or> position = Left then D 1 else D (- 1)))))"
proof -
  have "d \<noteq> D 0"
    using assms(2) by (auto simp: double_eq_iff)
  then show ?thesis
    using assms(1) by (simp add: getSubjectPosition_def)
qed

lemma getSubjectPosition_string:
  assumes "offset_at (offset (this_options that)) position = Some (OStr str)"
    and "parseInt str = Num percent"
  shows "getSubjectPosition that position =
           Num (d_floor (d_add (Subject_at (this_subject that) position)
             (d_mul
                (d_div
                   (if offsetPercentageMode (this_options that) = Some Parent
                    then (if position = Top \<or> position = Bottom
                          then innerHeight (this_context that)
                          else innerWidth (this_context that))
                    else (if position = Top \<or> position = Bottom
                          then Subject_height (this_subject that)
                          else Subject_width (this_subject that)))
                   (D 100))
                (d_mul percent (if position = Top \<or> position = Left then D 1 else D (- 1))))))"
proof -
  have "str \<noteq> []"
    using assms(2) by (auto simp: parseInt_Nil)
  then show ?thesis
    using assms by (simp add: getSubjectPosition_def Let_def)
qed

lemma parseInt_examples:
  "parseInt (codeUnits ''0%'') = Num (D 0)"
  "parseInt (codeUnits ''50%'') = Num (D 50)"
  "parseInt (0x00A0 # codeUnits ''50%'') = Num (D 50)"
  "parseInt (0xFEFF # codeUnits '' -12.5%'') = Num (D (- 12))"
  "parseInt (codeUnits ''%'') = NaN"
  by (simp_all add: parse_defs)

subsection \<open>Rounding at work\<close>

text \<open>
  The double below one half is \<open>1 / 2 - 2 powi - 54\<close>; its sum with one half lies midway
  between two doubles and rounds to the even one, which is 1.
\<close>

lemma fl_one_half: "fl (1 / 2) = 1 / 2"
  using fl_exact [of 1 "- 1"] by simp

lemma fl_below_half:
  "fl (9007199254740991 / 18014398509481984) = 9007199254740991 / 18014398509481984"
  using fl_exact [of 9007199254740991 "- 54"] by simp

lemma fl_below_one: "fl (18014398509481983 / 18014398509481984) = 1"
  by (subst fl_at [of "- 1"]) (simp_all add: round_even_def)

text \<open>
  \<open>812 / 100 * 50\<close>, computed as the runtime does: the quotient \<open>203 / 25\<close> is rounded, then
  its product with 50, which is below 406; adding 100 to it is exact.
\<close>

lemma fl_203_25: "fl (203 / 25) = 4571153621781053 / 562949953421312"
  by (subst fl_at [of 3]) (simp_all add: round_even_def)

lemma fl_product_50:
  "fl (114278840544526325 / 281474976710656) = 7142427534032895 / 17592186044416"
  by (subst fl_at [of 8]) (simp_all add: round_even_def)

lemma fl_sum_100:
  "fl (8901646138474495 / 17592186044416) = 8901646138474495 / 17592186044416"
  using fl_exact [of 8901646138474495 "- 44"] by simp

section \<open>The visibility result\<close>

text \<open>
  C1. When the handler passes the noise gate, the callback is called with
  \<open>visible = (topVisible \<or> bottomVisible \<or> overflowY) \<and> (leftVisible \<or> rightVisible \<or> overflowX)\<close>,
  where \<open>topVisible\<close> is \<open>parentTop \<le> childTop < parentBottom\<close>, \<open>bottomVisible\<close> is
  \<open>parentTop \<le> childBottom < parentBottom\<close>, \<open>leftVisible\<close> is
  \<open>parentLeft \<le> childLeft < parentRight\<close>, \<open>rightVisible\<close> is
  \<open>parentLeft \<le> childRight \<le> parentRight\<close> (the upper bound included), \<open>overflowY\<close> is
  \<open>childTop \<le> parentTop\<close> and \<open>childBottom \<ge> parentBottom\<close>, and \<open>overflowX\<close> is
  \<open>childLeft \<le> parentLeft\<close> and \<open>childRight \<ge> parentRight\<close>. A right edge that equals
  \<open>parentRight\<close> is visible; a left edge that equals \<open>parentRight\<close> is not. The bottom and
  the right of the context are the rounded sums that the handler computes.
\<close>

theorem callback_visible:
  assumes "\<not> scrolledLessThanMinimum that"
  shows
    "(let pT = Context_top (this_context that);
          pL = Context_left (this_context that);
          pB = d_add pT (innerHeight (this_context that));
          pR = d_add pL (innerWidth (this_context that));
          cT = getSubjectPosition that Top;
          cL = getSubjectPosition that Left;
          cB = getSubjectPosition that Bottom;
          cR = getSubjectPosition that Right
      in calls (eventsHandler that) = calls that @ [visibility that]
       \<and> visible (visibility that) =
           ((topVisible cT pT pB \<or> bottomVisible cB pT pB \<or> overflowY cT cB pT pB)
            \<and> (leftVisible cL pL pR \<or> rightVisible cR pL pR \<or> overflowX cL cR pL pR))
       \<and> topVisible cT pT pB = (js_le (Num pT) cT \<and> js_lt cT (Num pB))
       \<and> bottomVisible cB pT pB = (js_le (Num pT) cB \<and> js_lt cB (Num pB))
       \<and> leftVisible cL pL pR = (js_le (Num pL) cL \<and> js_lt cL (Num pR))
       \<and> rightVisible cR pL pR = (js_le (Num pL) cR \<and> js_le cR (Num pR))
       \<and> overflowY cT cB pT pB = (js_le cT (Num pT) \<and> js_le (Num pB) cB)
       \<and> overflowX cL cR pL pR = (js_le cL (Num pL) \<and> js_le (Num pR) cR)
       \<and> rightVisible (Num pR) pL pR
       \<and> \<not> leftVisible (Num pR) pL pR)"
proof -
  have c: "calls (eventsHandler that) = calls that @ [visibility that]"
    using assms by (simp add: eventsHandler_passes)
  have v: "visible (visibility that) =
      ((topVisible (getSubjectPosition that Top) (parentTop that) (parentBottom that)
        \<or> bottomVisible (getSubjectPosition that Bottom) (parentTop that) (parentBottom that)
        \<or> overflowY (getSubjectPosition that Top) (getSubjectPosition that Bottom)
             (parentTop that) (parentBottom that))
       \<and> (leftVisible (getSubjectPosition that Left) (parentLeft that) (parentRight that)
        \<or> rightVisible (getSubjectPosition that Right) (parentLeft that) (parentRight that)
        \<or> overflowX (getSubjectPosition that Left) (getSubjectPosition that Right)
             (parentLeft that) (parentRight that)))"
    by (simp add: visibility_def Let_def)
  have "0 \<le> val (innerWidth (this_context that))"
    by (simp add: innerWidth_def)
  then have w: "val (Context_left (this_context that))
      \<le> val (d_add (Context_left (this_context that)) (innerWidth (this_context that)))"
    by (rule val_le_d_add)
  show ?thesis
    unfolding Let_def
    using c v w
    by (auto simp: parentTop_def parentLeft_def parentBottom_def parentRight_def
        topVisible_def bottomVisible_def leftVisible_def rightVisible_def
        overflowY_def overflowX_def js_ge_le simp del: val_d_add)
qed

theorem callback_visible_witness:
  "\<not> scrolledLessThanMinimum (exampleEngine (box 100 50 800 200) noOffset Parent None)
   \<and> getSubjectPosition (exampleEngine (box 100 50 800 200) noOffset Parent None) Right
       = Num (D 800)
   \<and> calls (eventsHandler (exampleEngine (box 100 50 800 200) noOffset Parent None)) =
       [visibility (exampleEngine (box 100 50 800 200) noOffset Parent None)]
   \<and> visible (visibility (exampleEngine (box 100 50 800 200) noOffset Parent None))
   \<and> rightVisible (Num (D 800)) (D 0) (D 800)
   \<and> \<not> leftVisible (Num (D 800)) (D 0) (D 800)"
proof -
  have h: "\<not> scrolledLessThanMinimum (exampleEngine (box 100 50 800 200) noOffset Parent None)"
    unfolding exampleEngine_def by (rule example_not_noisy)
  have s: "d_add (D 0) (D 400) = D 400" "d_add (D 0) (D 800) = D 800"
    by (simp_all add: double_eq_iff)
  show ?thesis
    using h callback_visible [OF h]
    by (simp add: Let_def exampleEngine_def example_parent example_no_offset s
        topVisible_def bottomVisible_def leftVisible_def rightVisible_def
        overflowY_def overflowX_def)
qed

text \<open>
  C2. When the effective box of the subject strictly straddles the visible box of the
  context on both axes, the callback is called with \<open>visible\<close> true and the four quadrant
  flags false: the quadrant flags do not look at the overflow.
\<close>

theorem straddling_visible:
  assumes "\<not> scrolledLessThanMinimum that"
    and "js_lt (getSubjectPosition that Top) (Num (Context_top (this_context that)))"
    and "js_gt (getSubjectPosition that Bottom)
           (Num (d_add (Context_top (this_context that)) (innerHeight (this_context that))))"
    and "js_lt (getSubjectPosition that Left) (Num (Context_left (this_context that)))"
    and "js_gt (getSubjectPosition that Right)
           (Num (d_add (Context_left (this_context that)) (innerWidth (this_context that))))"
  shows "calls (eventsHandler that) = calls that @
           [\<lparr>visible = True, topLeft = False, topRight = False,
             bottomLeft = False, bottomRight = False\<rparr>]"
proof -
  obtain t where t: "getSubjectPosition that Top = Num t" "val t < val (parentTop that)"
    using assms(2) by (cases "getSubjectPosition that Top") (auto simp: parentTop_def)
  obtain b where b: "getSubjectPosition that Bottom = Num b"
      "val (parentBottom that) < val b"
    using assms(3)
    by (cases "getSubjectPosition that Bottom") (auto simp: parentTop_def parentBottom_def)
  obtain l where l: "getSubjectPosition that Left = Num l" "val l < val (parentLeft that)"
    using assms(4) by (cases "getSubjectPosition that Left") (auto simp: parentLeft_def)
  obtain r where r: "getSubjectPosition that Right = Num r" "val (parentRight that) < val r"
    using assms(5)
    by (cases "getSubjectPosition that Right") (auto simp: parentLeft_def parentRight_def)
  have "visibility that = \<lparr>visible = True, topLeft = False, topRight = False,
             bottomLeft = False, bottomRight = False\<rparr>"
    using t b l r
    by (simp add: visibility_def Let_def topVisible_def bottomVisible_def leftVisible_def
        rightVisible_def overflowY_def overflowX_def)
  then show ?thesis
    using assms(1) by (simp add: eventsHandler_passes)
qed

theorem straddling_visible_witness:
  "\<not> scrolledLessThanMinimum (exampleEngine (box (- 50) (- 10) 900 600) noOffset Parent None)
   \<and> getSubjectPosition (exampleEngine (box (- 50) (- 10) 900 600) noOffset Parent None) Top
       = Num (D (- 50))
   \<and> getSubjectPosition (exampleEngine (box (- 50) (- 10) 900 600) noOffset Parent None) Bottom
       = Num (D 600)
   \<and> getSubjectPosition (exampleEngine (box (- 50) (- 10) 900 600) noOffset Parent None) Left
       = Num (D (- 10))
   \<and> getSubjectPosition (exampleEngine (box (- 50) (- 10) 900 600) noOffset Parent None) Right
       = Num (D 900)
   \<and> calls (eventsHandler (exampleEngine (box (- 50) (- 10) 900 600) noOffset Parent None)) =
       [\<lparr>visible = True, topLeft = False, topRight = False,
         bottomLeft = False, bottomRight = False\<rparr>]"
proof -
  have h: "\<not> scrolledLessThanMinimum (exampleEngine (box (- 50) (- 10) 900 600) noOffset Parent None)"
    unfolding exampleEngine_def by (rule example_not_noisy)
  show ?thesis
    using h straddling_visible [OF h]
    by (simp add: exampleEngine_def example_parent example_no_offset)
qed

section \<open>The noise gate\<close>

text \<open>
  C3. On every event the listener refreshes the scroll snapshot and runs the handler. If
  \<open>0 < |scrollTopDiff| \<le> scrollAmount.top\<close> or \<open>0 < |scrollLeftDiff| \<le> scrollAmount.left\<close>
  for the refreshed differences, the callback is not called, whatever the other axis
  does; otherwise the callback is called exactly once. The differences are the current
  scroll offsets minus the offsets of the previous snapshot; a threshold that is absent
  compares as false.
\<close>

theorem noise_gate:
  "(let after = listener eventsHandler e that;
        td = scrollTopDiff (this_context after);
        ld = scrollLeftDiff (this_context after);
        amount = scrollAmountOrDefault (this_options that)
    in td = d_sub (scrollTop (getElement (context_element (this_context that))))
              (scroll_top (scroll (this_context that)))
     \<and> ld = d_sub (scrollLeft (getElement (context_element (this_context that))))
              (scroll_left (scroll (this_context that)))
     \<and> (if (0 < \<bar>val td\<bar> \<and> js_le (Num (d_abs td)) (ToNumber (amount_top amount)))
           \<or> (0 < \<bar>val ld\<bar> \<and> js_le (Num (d_abs ld)) (ToNumber (amount_left amount)))
         then calls after = calls that
         else (\<exists>v. calls after = calls that @ [v])))"
proof -
  define mid where
    "mid = that\<lparr>this_context := populateScroll ((this_context that)\<lparr>event := Some e\<rparr>)\<rparr>"
  have a: "listener eventsHandler e that = eventsHandler mid"
    by (simp add: listener_def mid_def)
  have m: "this_options mid = this_options that" "calls mid = calls that"
    "scrollTopDiff (this_context mid) = scrollTopDiff (this_context (eventsHandler mid))"
    "scrollLeftDiff (this_context mid) = scrollLeftDiff (this_context (eventsHandler mid))"
    by (simp_all add: mid_def eventsHandler_context)
  have g: "scrolledLessThanMinimum mid =
     ((0 < \<bar>val (scrollTopDiff (this_context (eventsHandler mid)))\<bar>
        \<and> js_le (Num (d_abs (scrollTopDiff (this_context (eventsHandler mid)))))
              (ToNumber (amount_top (scrollAmountOrDefault (this_options that)))))
      \<or> (0 < \<bar>val (scrollLeftDiff (this_context (eventsHandler mid)))\<bar>
        \<and> js_le (Num (d_abs (scrollLeftDiff (this_context (eventsHandler mid)))))
              (ToNumber (amount_left (scrollAmountOrDefault (this_options that))))))"
    unfolding scrolledLessThanMinimum_iff m(1) m(3) m(4) by (rule refl)
  have c: "calls (eventsHandler mid) =
      (if scrolledLessThanMinimum mid then calls that else calls that @ [visibility mid])"
    by (simp add: eventsHandler_def m(2))
  show ?thesis
    unfolding Let_def listener_diffs
    unfolding a c g
    by (simp add: listener_diffs [of e that, unfolded a])
qed

theorem noise_gate_witness:
  "calls (listener eventsHandler scrollEvent
       (pageScrolled 3 0 (box 97 50 800 197)
          (exampleEngine (box 100 50 800 200) noOffset Parent (minimumScroll 5 4)))) = []
   \<and> length (calls (listener eventsHandler scrollEvent
       (pageScrolled 30 0 (box 70 50 800 170)
          (exampleEngine (box 100 50 800 200) noOffset Parent (minimumScroll 5 4))))) = 1
   \<and> calls (listener eventsHandler scrollEvent
       (pageScrolled 30 2 (box 70 48 798 170)
          (exampleEngine (box 100 50 800 200) noOffset Parent (minimumScroll 5 4)))) = []"
proof -
  have a: "calls (listener eventsHandler scrollEvent
       (pageScrolled 3 0 (box 97 50 800 197)
          (exampleEngine (box 100 50 800 200) noOffset Parent (minimumScroll 5 4)))) = []"
    using noise_gate [of scrollEvent "pageScrolled 3 0 (box 97 50 800 197)
          (exampleEngine (box 100 50 800 200) noOffset Parent (minimumScroll 5 4))"]
    by (simp add: Let_def pageScrolled_reads exampleEngine_reads)
  have b: "length (calls (listener eventsHandler scrollEvent
       (pageScrolled 30 0 (box 70 50 800 170)
          (exampleEngine (box 100 50 800 200) noOffset Parent (minimumScroll 5 4))))) = 1"
    using noise_gate [of scrollEvent "pageScrolled 30 0 (box 70 50 800 170)
          (exampleEngine (box 100 50 800 200) noOffset Parent (minimumScroll 5 4))"]
    by (auto simp: Let_def pageScrolled_reads exampleEngine_reads)
  have c: "calls (listener eventsHandler scrollEvent
       (pageScrolled 30 2 (box 70 48 798 170)
          (exampleEngine (box 100 50 800 200) noOffset Parent (minimumScroll 5 4)))) = []"
    using noise_gate [of scrollEvent "pageScrolled 30 2 (box 70 48 798 170)
          (exampleEngine (box 100 50 800 200) noOffset Parent (minimumScroll 5 4))"]
    by (simp add: Let_def pageScrolled_reads exampleEngine_reads)
  show ?thesis
    using a b c by simp
qed

text \<open>
  C10. \<open>recalculate\<close> runs the evaluation without refreshing the scroll snapshot: the
  context is unchanged, and the handler reads the differences that the last event left.
  In every state whose stored differences are nonzero and within the threshold on either
  axis, \<open>recalculate\<close> does not call the callback; in every other state it calls the
  callback once, with the visibility of that state. So after an event that the gate
  suppressed, \<open>recalculate\<close> is suppressed too, whatever the host has changed since; and
  after an event that passed the gate, \<open>recalculate\<close> adds a second call.
\<close>

theorem recalculate_stale:
  "(let td = scrollTopDiff (this_context that);
        ld = scrollLeftDiff (this_context that);
        amount = scrollAmountOrDefault (this_options that);
        closed = ((0 < \<bar>val td\<bar> \<and> js_le (Num (d_abs td)) (ToNumber (amount_top amount)))
                  \<or> (0 < \<bar>val ld\<bar> \<and> js_le (Num (d_abs ld)) (ToNumber (amount_left amount))))
    in scroll (this_context (recalculate that)) = scroll (this_context that)
     \<and> this_context (recalculate that) = this_context that
     \<and> (closed \<longrightarrow> calls (recalculate that) = calls that)
     \<and> (\<not> closed \<longrightarrow> calls (recalculate that) = calls that @ [visibility that]))
   \<and> (let after = listener eventsHandler e that;
           later = hostChange n el after;
           td = scrollTopDiff (this_context after);
           ld = scrollLeftDiff (this_context after);
           amount = scrollAmountOrDefault (this_options that);
           closed = ((0 < \<bar>val td\<bar> \<and> js_le (Num (d_abs td)) (ToNumber (amount_top amount)))
                     \<or> (0 < \<bar>val ld\<bar> \<and> js_le (Num (d_abs ld)) (ToNumber (amount_left amount))))
       in scroll (this_context later) = scroll (this_context after)
        \<and> (closed \<longrightarrow> calls (recalculate later) = calls that)
        \<and> (\<not> closed \<longrightarrow>
              calls (recalculate later) = calls that @ [visibility after, visibility later]))"
proof -
  have one: "this_context (recalculate x) = this_context x
      \<and> calls (recalculate x) =
          (if scrolledLessThanMinimum x then calls x else calls x @ [visibility x])" for x
    by (simp add: recalculate_def eventsHandler_def)
  define mid where
    "mid = that\<lparr>this_context := populateScroll ((this_context that)\<lparr>event := Some e\<rparr>)\<rparr>"
  define after where "after = listener eventsHandler e that"
  define later where "later = hostChange n el after"
  have a: "after = eventsHandler mid"
    by (simp add: after_def listener_def mid_def)
  have m: "this_options mid = this_options that" "calls mid = calls that"
    "this_context mid = this_context after"
    by (simp_all add: mid_def a eventsHandler_context)
  have gm: "scrolledLessThanMinimum mid = scrolledLessThanMinimum after"
    unfolding scrolledLessThanMinimum_iff a by (simp add: eventsHandler_def)
  have va: "visibility after = visibility mid"
    unfolding a eventsHandler_def by (simp add: visibility_calls)
  have ca: "calls after =
      (if scrolledLessThanMinimum after then calls that else calls that @ [visibility after])"
    unfolding va unfolding a gm [symmetric, unfolded a]
    by (simp add: eventsHandler_def m(2))
  have oa: "this_options after = this_options that"
    unfolding a by (simp add: eventsHandler_def m(1))
  have gl: "scrolledLessThanMinimum later = scrolledLessThanMinimum after"
    unfolding scrolledLessThanMinimum_iff later_def scrollTopDiff_def scrollLeftDiff_def
      hostChange_reads by (rule refl)
  have cl: "calls later = calls after"
    by (simp add: later_def hostChange_reads)
  have sl: "scroll (this_context later) = scroll (this_context after)"
    by (simp add: later_def hostChange_reads)
  have first: "scroll (this_context (recalculate that)) = scroll (this_context that)
     \<and> this_context (recalculate that) = this_context that
     \<and> (scrolledLessThanMinimum that \<longrightarrow> calls (recalculate that) = calls that)
     \<and> (\<not> scrolledLessThanMinimum that \<longrightarrow>
          calls (recalculate that) = calls that @ [visibility that])"
    using one [of that] by simp
  have second: "scroll (this_context later) = scroll (this_context after)
        \<and> (scrolledLessThanMinimum after \<longrightarrow> calls (recalculate later) = calls that)
        \<and> (\<not> scrolledLessThanMinimum after \<longrightarrow>
              calls (recalculate later) = calls that @ [visibility after, visibility later])"
    using one [of later] sl by (simp add: gl cl ca)
  note first' = first [unfolded scrolledLessThanMinimum_iff]
  note second' = second [unfolded scrolledLessThanMinimum_iff oa, unfolded after_def later_def]
  show ?thesis
    unfolding Let_def
    using first' second'
    by blast
qed

theorem recalculate_stale_witness:
  "scrollTopDiff (this_context (listener eventsHandler scrollEvent
       (pageScrolled 3 0 (box 97 50 800 197)
          (exampleEngine (box 100 50 800 200) noOffset Parent (minimumScroll 5 4))))) = D 3
   \<and> calls (recalculate
       (hostChange (Document (rootElement 400 800 3 0)) (plainElement (box 50 50 800 150))
          (listener eventsHandler scrollEvent
             (pageScrolled 3 0 (box 97 50 800 197)
                (exampleEngine (box 100 50 800 200) noOffset Parent (minimumScroll 5 4)))))) = []
   \<and> scrollTopDiff (this_context (listener eventsHandler scrollEvent
       (pageScrolled 30 0 (box 70 50 800 170)
          (exampleEngine (box 100 50 800 200) noOffset Parent (minimumScroll 5 4))))) = D 30
   \<and> length (calls (recalculate
       (hostChange (Document (rootElement 400 800 30 0)) (plainElement (box 50 50 800 150))
          (listener eventsHandler scrollEvent
             (pageScrolled 30 0 (box 70 50 800 170)
                (exampleEngine (box 100 50 800 200) noOffset Parent (minimumScroll 5 4))))))) = 2"
proof -
  have d: "scrollTopDiff (this_context (listener eventsHandler scrollEvent
       (pageScrolled 3 0 (box 97 50 800 197)
          (exampleEngine (box 100 50 800 200) noOffset Parent (minimumScroll 5 4))))) = D 3"
    "scrollLeftDiff (this_context (listener eventsHandler scrollEvent
       (pageScrolled 3 0 (box 97 50 800 197)
          (exampleEngine (box 100 50 800 200) noOffset Parent (minimumScroll 5 4))))) = D 0"
    by (simp_all add: listener_diffs pageScrolled_reads exampleEngine_reads double_eq_iff)
  have d': "scrollTopDiff (this_context (listener eventsHandler scrollEvent
       (pageScrolled 30 0 (box 70 50 800 170)
          (exampleEngine (box 100 50 800 200) noOffset Parent (minimumScroll 5 4))))) = D 30"
    "scrollLeftDiff (this_context (listener eventsHandler scrollEvent
       (pageScrolled 30 0 (box 70 50 800 170)
          (exampleEngine (box 100 50 800 200) noOffset Parent (minimumScroll 5 4))))) = D 0"
    by (simp_all add: listener_diffs pageScrolled_reads exampleEngine_reads double_eq_iff)
  have 1: "calls (recalculate
       (hostChange (Document (rootElement 400 800 3 0)) (plainElement (box 50 50 800 150))
          (listener eventsHandler scrollEvent
             (pageScrolled 3 0 (box 97 50 800 197)
                (exampleEngine (box 100 50 800 200) noOffset Parent (minimumScroll 5 4)))))) = []"
    using recalculate_stale [of "pageScrolled 3 0 (box 97 50 800 197)
          (exampleEngine (box 100 50 800 200) noOffset Parent (minimumScroll 5 4))"
        scrollEvent "Document (rootElement 400 800 3 0)" "plainElement (box 50 50 800 150)"]
    by (simp add: Let_def d pageScrolled_reads exampleEngine_reads)
  have 2: "length (calls (recalculate
       (hostChange (Document (rootElement 400 800 30 0)) (plainElement (box 50 50 800 150))
          (listener eventsHandler scrollEvent
             (pageScrolled 30 0 (box 70 50 800 170)
                (exampleEngine (box 100 50 800 200) noOffset Parent (minimumScroll 5 4))))))) = 2"
    using recalculate_stale [of "pageScrolled 30 0 (box 70 50 800 170)
          (exampleEngine (box 100 50 800 200) noOffset Parent (minimumScroll 5 4))"
        scrollEvent "Document (rootElement 400 800 30 0)" "plainElement (box 50 50 800 150)"]
    by (simp add: Let_def d' pageScrolled_reads exampleEngine_reads)
  show ?thesis
    using d(1) d'(1) 1 2 by simp
qed

section \<open>The scroll snapshot\<close>

text \<open>
  C8. After every run of \<open>populateScroll\<close>, and so after the construction of a context or
  of an engine and after every event, the directions agree with the differences:
  \<open>dirY\<close> is \<open>NONE\<close>, \<open>DOWN\<close> or \<open>UP\<close> exactly when \<open>topDiff\<close> is zero, positive or negative,
  and \<open>dirX\<close> is \<open>NONE\<close>, \<open>RIGHT\<close> or \<open>LEFT\<close> exactly when \<open>leftDiff\<close> is zero, positive or
  negative.
\<close>

theorem directions_consistent:
  "directionsMatchDiffs (scroll (populateScroll c))
   \<and> directionsMatchDiffs (scroll (Context_new n))
   \<and> directionsMatchDiffs (scroll (this_context (listener eventsHandler e that)))
   \<and> (\<forall>iv reg'. InView_new reg el doc given = (reg', Constructed iv) \<longrightarrow>
         directionsMatchDiffs (scroll (this_context iv)))
   \<and> (\<forall>ctx subj reg'. InView_new reg el doc given = (reg', ConstructedWithoutOffset ctx subj) \<longrightarrow>
         directionsMatchDiffs (scroll ctx))"
proof -
  have a: "directionsMatchDiffs (scroll (Context_new n))" for n
    unfolding Context_new_def by (rule populateScroll_dirs)
  have b: "directionsMatchDiffs (scroll (this_context (listener eventsHandler e that)))"
    by (simp add: listener_def eventsHandler_context populateScroll_dirs)
  have c: "directionsMatchDiffs (scroll (this_context iv))"
    if "InView_new reg el doc given = (reg', Constructed iv)" for iv reg'
    using that a
    by (auto simp: InView_new_def Let_def listen_scroll split: sum.splits entry.splits)
  have d: "directionsMatchDiffs (scroll ctx)"
    if "InView_new reg el doc given = (reg', ConstructedWithoutOffset ctx subj)"
    for ctx subj reg'
    using that a
    by (auto simp: InView_new_def Let_def listen_scroll split: sum.splits entry.splits)
  show ?thesis
    using populateScroll_dirs a b c d by blast
qed

theorem directions_consistent_witness:
  "directionsMatchDiffs (scroll (this_context (listener eventsHandler scrollEvent
       (pageScrolled 3 0 (box 97 50 800 197)
          (exampleEngine (box 100 50 800 200) noOffset Parent None)))))
   \<and> InView_new [] (plainElement fractionalBox) (rootElement 400 800 0 0)
        (topOffsetOptions (OStr (codeUnits ''50%'')))
       = ([(ContextTarget, ''scroll''), (WindowTarget, ''DOMContentLoaded''),
           (WindowTarget, ''resize'')],
          Constructed (exampleEngine fractionalBox (topOffset (OStr (codeUnits ''50%''))) Parent None))
   \<and> directionsMatchDiffs (scroll (this_context
         (exampleEngine fractionalBox (topOffset (OStr (codeUnits ''50%''))) Parent None)))"
proof -
  have n: "InView_new [] (plainElement fractionalBox) (rootElement 400 800 0 0)
        (topOffsetOptions (OStr (codeUnits ''50%'')))
       = ([(ContextTarget, ''scroll''), (WindowTarget, ''DOMContentLoaded''),
           (WindowTarget, ''resize'')],
          Constructed (exampleEngine fractionalBox (topOffset (OStr (codeUnits ''50%''))) Parent None))"
    by (rule example_constructed)
  show ?thesis
    using n directions_consistent [of _ _ scrollEvent
        "pageScrolled 3 0 (box 97 50 800 197)
          (exampleEngine (box 100 50 800 200) noOffset Parent None)"
        "[]" "plainElement fractionalBox" "rootElement 400 800 0 0"
        "topOffsetOptions (OStr (codeUnits ''50%''))"]
    by blast
qed

section \<open>The resolution of the offsets\<close>

text \<open>
  C4, as amended. For every numeric offset \<open>d\<close> other than zero (and other than \<open>NaN\<close>)
  configured on an edge, the effective edge is \<open>floor (raw + d)\<close> when the edge is top or
  left and \<open>floor (raw - d)\<close> when it is bottom or right, in the arithmetic of doubles: the
  sum or difference is rounded to a double before the floor is taken (0.5 plus the double
  below 0.5 is 1). The offset zero is falsy and takes the early return of the edge without
  an offset, as the counterexample shows.
\<close>

theorem numeric_offset_floor:
  assumes "offset_at (offset (this_options that)) position = Some (ONum (Num d))"
    and "val d \<noteq> 0"
  shows "(position = Top \<or> position = Left \<longrightarrow>
            getSubjectPosition that position =
              Num (d_floor (d_add (Subject_at (this_subject that) position) d)))
       \<and> (position = Bottom \<or> position = Right \<longrightarrow>
            getSubjectPosition that position =
              Num (d_floor (d_sub (Subject_at (this_subject that) position) d)))"
  unfolding getSubjectPosition_number [OF assms]
  by (cases position) simp_all

theorem numeric_offset_floor_witness:
  "getSubjectPosition (exampleEngine fractionalBox (topOffset (ONum (Num (D 5)))) Parent None) Top
     = Num (D 15)
   \<and> getSubjectPosition
        (exampleEngine fractionalBox (noOffset\<lparr>offset_right := Some (ONum (Num (D 5)))\<rparr>)
           Parent None) Right
       = Num (D 795)
   \<and> val (D (9007199254740991 / 18014398509481984)) < 1 / 2
   \<and> getSubjectPosition
        (exampleEngine (box (1 / 2) 20 800 50)
           (topOffset (ONum (Num (D (9007199254740991 / 18014398509481984))))) Parent None) Top
       = Num (D 1)"
proof -
  have h: "offset_at (offset (this_options
      (exampleEngine r (topOffset (ONum (Num (D x)))) Parent None))) Top
     = Some (ONum (Num (D x)))" for r x
    by (simp add: example_defs)
  have r: "offset_at (offset (this_options
      (exampleEngine fractionalBox (noOffset\<lparr>offset_right := Some (ONum (Num (D 5)))\<rparr>)
         Parent None))) Right
     = Some (ONum (Num (D 5)))"
    by (simp add: example_defs)
  have n: "val (D 5) \<noteq> 0" "val (D (9007199254740991 / 18014398509481984)) \<noteq> 0"
    by (simp_all add: fl_below_half)
  have 1: "getSubjectPosition
      (exampleEngine fractionalBox (topOffset (ONum (Num (D 5)))) Parent None) Top = Num (D 15)"
    using numeric_offset_floor [OF h n(1), of fractionalBox]
    by (simp add: example_defs read_defs double_eq_iff)
  have 2: "getSubjectPosition
        (exampleEngine fractionalBox (noOffset\<lparr>offset_right := Some (ONum (Num (D 5)))\<rparr>)
           Parent None) Right
       = Num (D 795)"
    using numeric_offset_floor [OF r n(1)]
    by (simp add: example_defs read_defs double_eq_iff)
  have 3: "getSubjectPosition
        (exampleEngine (box (1 / 2) 20 800 50)
           (topOffset (ONum (Num (D (9007199254740991 / 18014398509481984))))) Parent None) Top
       = Num (D 1)"
    using numeric_offset_floor [OF h n(2), of "box (1 / 2) 20 800 50"]
    by (simp add: example_defs read_defs double_eq_iff fl_one_half fl_below_half fl_below_one)
  show ?thesis
    using 1 2 3 by (simp add: fl_below_half)
qed

theorem zero_offset_not_floored:
  "offset_at (offset (this_options
       (exampleEngine fractionalBox (topOffset (ONum (Num (D 0)))) Parent None))) Top
     = Some (ONum (Num (D 0)))
   \<and> val (Subject_at (this_subject
       (exampleEngine fractionalBox (topOffset (ONum (Num (D 0)))) Parent None)) Top) = 21 / 2
   \<and> getSubjectPosition
       (exampleEngine fractionalBox (topOffset (ONum (Num (D 0)))) Parent None) Top
       = Num (D (21 / 2))
   \<and> d_floor (d_add (D (21 / 2)) (D 0)) = D 10
   \<and> getSubjectPosition
       (exampleEngine fractionalBox (topOffset (ONum (Num (D 0)))) Parent None) Top
       \<noteq> Num (d_floor (d_add (D (21 / 2)) (D 0)))"
  by (simp add: getSubjectPosition_def example_defs read_defs double_eq_iff)

text \<open>
  C5, as amended. For every edge with no offset configured the result is the measured
  coordinate itself: the early return comes before the flooring, which only the branches
  that apply an offset reach. The counterexample is an edge at 10.5.
\<close>

theorem no_offset_returns_raw:
  assumes "offset_at (offset (this_options that)) position = None"
  shows "getSubjectPosition that position = Num (Subject_at (this_subject that) position)"
  using assms by (rule getSubjectPosition_none)

theorem no_offset_returns_raw_witness:
  "offset_at (offset (this_options (exampleEngine fractionalBox noOffset Parent None))) Right = None
   \<and> getSubjectPosition (exampleEngine fractionalBox noOffset Parent None) Right
       = Num (D (1601 / 2))"
proof -
  have h: "offset_at (offset (this_options (exampleEngine fractionalBox noOffset Parent None)))
      Right = None"
    by (simp add: example_defs)
  show ?thesis
    using h no_offset_returns_raw [OF h] by (simp add: example_defs read_defs)
qed

theorem no_offset_not_floored:
  "offset_at (offset (this_options (exampleEngine fractionalBox noOffset Parent None))) Top = None
   \<and> val (Subject_at (this_subject (exampleEngine fractionalBox noOffset Parent None)) Top)
       = 21 / 2
   \<and> getSubjectPosition (exampleEngine fractionalBox noOffset Parent None) Top
       = Num (D (21 / 2))
   \<and> js_floor (Num (D (21 / 2))) = Num (D 10)
   \<and> getSubjectPosition (exampleEngine fractionalBox noOffset Parent None) Top
       \<noteq> js_floor (Num (Subject_at
             (this_subject (exampleEngine fractionalBox noOffset Parent None)) Top))"
  by (simp add: getSubjectPosition_def example_defs read_defs double_eq_iff)

text \<open>
  C6, as amended. For every subject and every edge, the offset \<open>0%\<close> yields the floor of the
  edge that no offset yields; the two are equal when the measured coordinate is an
  integer. The counterexample is an edge at 10.5: 10 with \<open>0%\<close>, 10.5 without an offset.
\<close>

theorem zero_percent_floors:
  assumes "this_subject a = this_subject b"
    and "offset_at (offset (this_options a)) position = Some (OStr (codeUnits ''0%''))"
    and "offset_at (offset (this_options b)) position = None"
  shows "getSubjectPosition a position = js_floor (getSubjectPosition b position)
       \<and> (val (Subject_at (this_subject b) position) \<in> \<int> \<longrightarrow>
            getSubjectPosition a position = getSubjectPosition b position)"
proof -
  have a: "getSubjectPosition a position = Num (d_floor (Subject_at (this_subject b) position))"
    unfolding getSubjectPosition_string [OF assms(2) parseInt_examples(1)]
    by (simp add: assms(1))
  have b: "getSubjectPosition b position = Num (Subject_at (this_subject b) position)"
    using assms(3) by (rule getSubjectPosition_none)
  have "d_floor x = x" if "val x \<in> \<int>" for x
    using that by (auto simp: double_eq_iff Ints_def)
  then show ?thesis
    using a b by auto
qed

theorem zero_percent_floors_witness:
  "getSubjectPosition
      (exampleEngine fractionalBox (topOffset (OStr (codeUnits ''0%''))) Parent None) Top
     = js_floor (getSubjectPosition (exampleEngine fractionalBox noOffset Parent None) Top)
   \<and> getSubjectPosition
      (exampleEngine (box 10 20 800 50) (topOffset (OStr (codeUnits ''0%''))) Parent None) Top
     = getSubjectPosition (exampleEngine (box 10 20 800 50) noOffset Parent None) Top"
proof -
  have s: "this_subject (exampleEngine r (topOffset (OStr (codeUnits ''0%''))) Parent None)
     = this_subject (exampleEngine r noOffset Parent None)" for r
    by (simp add: example_defs)
  have h: "offset_at (offset (this_options
      (exampleEngine r (topOffset (OStr (codeUnits ''0%''))) Parent None))) Top
     = Some (OStr (codeUnits ''0%''))" for r
    by (simp add: example_defs)
  have n: "offset_at (offset (this_options (exampleEngine r noOffset Parent None))) Top = None"
    for r
    by (simp add: example_defs)
  have i: "val (Subject_at (this_subject (exampleEngine (box 10 20 800 50) noOffset Parent None))
      Top) \<in> \<int>"
    by (simp add: example_defs read_defs)
  show ?thesis
    using zero_percent_floors [OF s h n, of fractionalBox]
      zero_percent_floors [OF s h n, of "box 10 20 800 50"] i
    by blast
qed

theorem zero_percent_differs:
  "this_subject (exampleEngine fractionalBox (topOffset (OStr (codeUnits ''0%''))) Parent None)
     = this_subject (exampleEngine fractionalBox noOffset Parent None)
   \<and> getSubjectPosition
       (exampleEngine fractionalBox (topOffset (OStr (codeUnits ''0%''))) Parent None) Top
       = Num (D 10)
   \<and> getSubjectPosition (exampleEngine fractionalBox noOffset Parent None) Top
       = Num (D (21 / 2))
   \<and> getSubjectPosition
       (exampleEngine fractionalBox (topOffset (OStr (codeUnits ''0%''))) Parent None) Top
       \<noteq> getSubjectPosition (exampleEngine fractionalBox noOffset Parent None) Top"
proof -
  have h: "offset_at (offset (this_options
      (exampleEngine fractionalBox (topOffset (OStr (codeUnits ''0%''))) Parent None))) Top
     = Some (OStr (codeUnits ''0%''))"
    by (simp add: example_defs)
  have a: "getSubjectPosition
       (exampleEngine fractionalBox (topOffset (OStr (codeUnits ''0%''))) Parent None) Top
       = Num (D 10)"
    unfolding getSubjectPosition_string [OF h parseInt_examples(1)]
    by (simp add: example_defs read_defs double_eq_iff)
  have b: "getSubjectPosition (exampleEngine fractionalBox noOffset Parent None) Top
       = Num (D (21 / 2))"
    by (simp add: getSubjectPosition_none example_defs read_defs)
  show ?thesis
    unfolding a b by (simp add: example_defs double_eq_iff)
qed

text \<open>
  C7. For every string offset with a leading integer \<open>percent\<close>, the effective edge is
  \<open>floor (raw + dimension / 100 * percent * sign)\<close> in the arithmetic of doubles, each
  operation rounded, where \<open>sign\<close> is 1 for top and left and -1 for bottom and right, and
  \<open>dimension\<close> is the inner height (top, bottom) or inner width (left, right) of the context
  in the mode \<open>parent\<close>, and the height or width of the subject otherwise. With the offset
  \<open>50%\<close> on the top edge and a context 400 high, the effective top is \<open>floor (raw + 200)\<close>;
  with a context 812 high and a top at 100 it is 505, since \<open>812 / 100 * 50\<close> is below 406
  in doubles.
\<close>

theorem percentage_offset:
  assumes "offset_at (offset (this_options that)) position = Some (OStr str)"
    and "parseInt str = Num percent"
  shows
    "(let raw = Subject_at (this_subject that) position;
          sign = (if position = Top \<or> position = Left then D 1 else D (- 1));
          vertical = (position = Top \<or> position = Bottom);
          dimension =
            (if offsetPercentageMode (this_options that) = Some Parent
             then (if vertical then innerHeight (this_context that)
                   else innerWidth (this_context that))
             else (if vertical then Subject_height (this_subject that)
                   else Subject_width (this_subject that)))
      in getSubjectPosition that position =
           Num (d_floor (d_add raw (d_mul (d_mul (d_div dimension (D 100)) percent) sign))))"
proof -
  have s: "d_mul x (d_mul percent (if position = Top \<or> position = Left then D 1 else D (- 1)))
      = d_mul (d_mul x percent) (if position = Top \<or> position = Left then D 1 else D (- 1))"
    for x
    by (rule d_mul_sign) simp
  show ?thesis
    unfolding Let_def getSubjectPosition_string [OF assms] s by (rule refl)
qed

theorem percentage_offset_witness:
  "parseInt (codeUnits ''50%'') = Num (D 50)
   \<and> innerHeight (this_context
        (exampleEngine fractionalBox (topOffset (OStr (codeUnits ''50%''))) Parent None)) = D 400
   \<and> val (Subject_at (this_subject
        (exampleEngine fractionalBox (topOffset (OStr (codeUnits ''50%''))) Parent None)) Top)
       = 21 / 2
   \<and> getSubjectPosition
        (exampleEngine fractionalBox (topOffset (OStr (codeUnits ''50%''))) Parent None) Top
       = Num (D 210)
   \<and> innerHeight (this_context
        (engineOn 812 (box 100 20 800 50) (topOffset (OStr (codeUnits ''50%''))) Parent None))
       = D 812
   \<and> getSubjectPosition
        (engineOn 812 (box 100 20 800 50) (topOffset (OStr (codeUnits ''50%''))) Parent None) Top
       = Num (D 505)"
proof -
  have h: "offset_at (offset (this_options
      (engineOn k r (topOffset (OStr (codeUnits ''50%''))) Parent None))) Top
     = Some (OStr (codeUnits ''50%''))" for k r
    by (simp add: example_defs)
  note p = parseInt_examples(2)
  have 1: "getSubjectPosition
        (exampleEngine fractionalBox (topOffset (OStr (codeUnits ''50%''))) Parent None) Top
       = Num (D 210)"
    using percentage_offset [OF h p, of 400 fractionalBox]
    by (simp add: example_defs read_defs double_eq_iff)
  have 2: "getSubjectPosition
        (engineOn 812 (box 100 20 800 50) (topOffset (OStr (codeUnits ''50%''))) Parent None) Top
       = Num (D 505)"
    using percentage_offset [OF h p, of 812 "box 100 20 800 50"]
    by (simp add: example_defs read_defs double_eq_iff fl_203_25 fl_product_50 fl_sum_100)
  show ?thesis
    using p 1 2 by (simp add: example_defs read_defs)
qed

section \<open>The validation of the options\<close>

text \<open>
  What the validation does: it throws exactly when some string entry is not empty and
  does not end in the percent sign; a constructor that throws leaves the registry of
  listeners as it found it; and entries that are present with the value \<open>undefined\<close>
  override the defaults.
\<close>

lemma validateOffsets_throws:
  "(validateOffsets off ks = Inl TypeError) =
     (\<exists>k \<in> set ks. \<exists>v. offset_at off k = Some (OStr v) \<and> v \<noteq> [] \<and> last v \<noteq> percentSign)"
proof (induction ks)
  case Nil
  then show ?case by simp
next
  case (Cons k ks)
  show ?case
  proof (cases "offset_at off k")
    case None
    then show ?thesis using Cons by simp
  next
    case (Some po)
    then show ?thesis
      using Cons by (cases po) (auto simp: lastIndexOf_end)
  qed
qed

lemma validateOptions_throws:
  "(validateOptions opts = Inl TypeError) =
     (\<exists>off k v. given_offset opts = Given off \<and> offset_at off k = Some (OStr v)
        \<and> v \<noteq> [] \<and> last v \<noteq> percentSign)"
proof -
  have u: "set [Top, Left, Right, Bottom] = UNIV"
  proof -
    have "k \<in> set [Top, Left, Right, Bottom]" for k
      by (cases k) simp_all
    then show ?thesis by blast
  qed
  have v: "(validateOffsets off [Top, Left, Right, Bottom] = Inl TypeError) =
      (\<exists>k v. offset_at off k = Some (OStr v) \<and> v \<noteq> [] \<and> last v \<noteq> percentSign)" for off
    unfolding validateOffsets_throws u by simp
  show ?thesis
  proof (cases "given_offset opts")
    case (Given off)
    then show ?thesis
      unfolding validateOptions_def by (simp only: entry.case v) simp
  qed (simp_all add: validateOptions_def)
qed

lemma constructor_throws_attaches_nothing:
  "snd (InView_new reg el doc given) = Thrown err \<Longrightarrow> fst (InView_new reg el doc given) = reg"
  by (auto simp: InView_new_def Let_def split: sum.splits entry.splits)

lemma constructor_throws_iff:
  "(\<exists>err. snd (InView_new reg el doc given) = Thrown err) =
     (validateOptions (mergeDefaults given) = Inl TypeError)"
proof -
  have "err = TypeError" for err :: error
    by (cases err) simp
  then show ?thesis
    by (auto simp: InView_new_def Let_def split: sum.splits entry.splits)
qed

lemma constructor_with_undefined_entries:
  "InView_new [] (plainElement r) (rootElement 400 800 0 0) undefinedOptions =
     ([(ContextTarget, ''scroll'')],
      ConstructedWithoutOffset
        ((Context_new (Document (rootElement 400 800 0 0)))\<lparr>boundListener := True\<rparr>)
        \<lparr>subject_element = plainElement r\<rparr>)"
  by (simp add: InView_new_def mergeDefaults_def validateOptions_def undefinedOptions_def
      listen_def Let_def)

text \<open>
  C9 at the empty string. The empty string does not end in the percent sign, yet
  \<open>lastIndexOf\<close> returns -1, which is its length minus one: the validation accepts it, and
  the constructor returns an engine with its listeners attached.
\<close>

theorem empty_string_offset_accepted:
  "\<not> endsInPercent (codeUnits '''')
   \<and> given_offset (topOffsetOptions (OStr (codeUnits ''''))) = Given (topOffset (OStr (codeUnits '''')))
   \<and> offset_top (topOffset (OStr (codeUnits ''''))) = Some (OStr (codeUnits ''''))
   \<and> lastIndexOf (codeUnits '''') percentSign = int (length (codeUnits '''')) - 1
   \<and> validateOptions (mergeDefaults (topOffsetOptions (OStr (codeUnits '''')))) = Inr ()
   \<and> fst (InView_new [] (plainElement fractionalBox) (rootElement 400 800 0 0)
            (topOffsetOptions (OStr (codeUnits ''''))))
       = [(ContextTarget, ''scroll''), (WindowTarget, ''DOMContentLoaded''),
          (WindowTarget, ''resize'')]
   \<and> snd (InView_new [] (plainElement fractionalBox) (rootElement 400 800 0 0)
            (topOffsetOptions (OStr (codeUnits ''''))))
       = Constructed (exampleEngine fractionalBox (topOffset (OStr (codeUnits ''''))) Parent None)"
  by (simp add: endsInPercent_def lastIndexOf_def codeUnits_def validateOptions_def
      mergeDefaults_def InView_new_def example_defs)

end
